theory Spec2Isabelle
  imports Main "HOL-Library.Finite_Map"
begin

text \<open>
  bookshelf-paranoia (\<^verbatim>\<open>src/index.js\<close>) is a plugin of the bookshelf ORM: it filters
  the rows marked as deleted out of every fetch and count, and replaces
  \<^verbatim>\<open>Model.destroy\<close> by an update that writes the marker, triggers the life-cycle
  events and cascades to the dependent relations. The plugin is embedded with the
  host framework as a parameter: the calls it makes into bookshelf and knex are
  recorded in a trace, and what the host answers is read from an environment.
\<close>

section \<open>JavaScript values\<close>

text \<open>
  The values the plugin inspects. Objects are finite maps from property names to values
  (a property that is absent reads as \<open>JUndefined\<close>); \<open>JDate\<close> carries the
  milliseconds of a \<^verbatim>\<open>Date\<close>.
\<close>

datatype jsval =
    JUndefined
  | JNull
  | JBool bool
  | JNum int
  | JStr string
  | JDate int
  | JArr "jsval list"
  | JObj "(string, jsval) fmap"

type_synonym obj = "(string, jsval) fmap"

text \<open>Truthiness, as \<^verbatim>\<open>if (v)\<close> and \<^verbatim>\<open>!v\<close> test it.\<close>

fun truthy :: "jsval \<Rightarrow> bool" where
  "truthy JUndefined = False"
| "truthy JNull = False"
| "truthy (JBool b) = b"
| "truthy (JNum n) = (n \<noteq> 0)"
| "truthy (JStr s) = (s \<noteq> [])"
| "truthy (JDate t) = True"
| "truthy (JArr xs) = True"
| "truthy (JObj m) = True"

text \<open>
  \<^verbatim>\<open>lodash.isempty\<close>: an array or a string is empty when its length is 0, a plain
  object when it has no own enumerable property; every other value (a number, a
  boolean, \<^verbatim>\<open>null\<close>, \<^verbatim>\<open>undefined\<close>, a \<^verbatim>\<open>Date\<close>) has no own enumerable
  property and counts as empty (lodash documents \<^verbatim>\<open>_.isEmpty(1)\<close> as \<^verbatim>\<open>true\<close>).
\<close>

fun isEmpty :: "jsval \<Rightarrow> bool" where
  "isEmpty (JStr s) = (s = [])"
| "isEmpty (JArr xs) = (xs = [])"
| "isEmpty (JObj m) = (m = fmempty)"
| "isEmpty JUndefined = True"
| "isEmpty JNull = True"
| "isEmpty (JBool b) = True"
| "isEmpty (JNum n) = True"
| "isEmpty (JDate t) = True"

text \<open>
  \<^verbatim>\<open>lodash.merge(object, source)\<close> on objects whose values are copied whole: every
  property of \<open>source\<close> is assigned to \<open>object\<close>, except that a source value
  \<^verbatim>\<open>undefined\<close> is skipped when \<open>object\<close> already has the key. (lodash merges two
  nested plain objects key by key; the destinations merged here hold booleans and
  strings only. A missing source, \<^verbatim>\<open>undefined\<close>, leaves \<open>object\<close> as it is.)
\<close>

definition merge :: "obj \<Rightarrow> obj \<Rightarrow> obj" where
  "merge object source =
     object ++\<^sub>f
       fmfilter (\<lambda>key. \<not> (fmlookup source key = Some JUndefined \<and> key |\<in>| fmdom object))
         source"

definition merge_opt :: "obj \<Rightarrow> obj option \<Rightarrow> obj" where
  "merge_opt object source = (case source of None \<Rightarrow> object | Some s \<Rightarrow> merge object s)"

section \<open>Settings (index.js, lines 18-31)\<close>

text \<open>
  The settings after the merge with the defaults. \<open>sentinel\<close> is \<open>None\<close> for
  \<^verbatim>\<open>null\<close>; \<open>events\<close> is \<open>None\<close> when \<^verbatim>\<open>settings.events\<close> is falsy, and holds
  the truthiness of each flag otherwise.
\<close>

record events_cfg =
  destroying :: bool
  updating :: bool
  saving :: bool
  destroyed :: bool
  updated :: bool
  saved :: bool

record settings =
  field :: string
  sentinel :: "string option"
  events :: "events_cfg option"

definition default_settings :: settings where
  "default_settings =
     \<lparr> field = ''deleted_at'',
       sentinel = None,
       events = Some \<lparr> destroying = True, updating = False, saving = False,
                       destroyed = True, updated = False, saved = False \<rparr> \<rparr>"

text \<open>
  \<^verbatim>\<open>if (settings.sentinel)\<close>: the sentinel's name when it is truthy, that is neither
  \<^verbatim>\<open>null\<close> nor the empty string.
\<close>

definition sentinel_name :: "settings \<Rightarrow> string option" where
  "sentinel_name st =
     (case sentinel st of None \<Rightarrow> None | Some s \<Rightarrow> if s = [] then None else Some s)"

section \<open>Operation options and the query builder\<close>

text \<open>
  The query builder of \<^verbatim>\<open>options.query\<close> is the list of clauses added to it so far;
  \<^verbatim>\<open>whereNull(column)\<close> appends one.
\<close>

datatype clause = WhereNull string | OtherClause string

record options =
  isEager :: jsval
  parentResponse :: jsval
  withDeleted :: jsval
  hardDelete :: jsval
  require :: jsval
  transacting :: jsval
  opt_method :: jsval
  opt_patch :: jsval
  opt_softDelete :: jsval
  previousAttributes :: jsval
  query :: "clause list"

text \<open>The empty options object \<^verbatim>\<open>{}\<close>.\<close>

definition empty_options :: options where
  "empty_options =
     \<lparr> isEager = JUndefined, parentResponse = JUndefined, withDeleted = JUndefined,
       hardDelete = JUndefined, require = JUndefined, transacting = JUndefined,
       opt_method = JUndefined, opt_patch = JUndefined, opt_softDelete = JUndefined,
       previousAttributes = JUndefined, query = [] \<rparr>"

definition whereNull :: "string \<Rightarrow> clause list \<Rightarrow> clause list" where
  "whereNull column q = q @ [WhereNull column]"

section \<open>The read filter (index.js, lines 42-50 and 58-80)\<close>

text \<open>
  The receiver of \<^verbatim>\<open>skipDeleted\<close> is a model or a collection: \<open>model_proto\<close> is
  \<open>Some sd\<close> when \<^verbatim>\<open>this.model\<close> is set, \<open>sd\<close> being
  \<^verbatim>\<open>this.model.prototype.softDelete\<close>; \<open>own_softDelete\<close> is \<^verbatim>\<open>this.softDelete\<close>;
  \<open>r_tableName\<close> is \<^verbatim>\<open>result(this, 'tableName')\<close>.
\<close>

record receiver =
  model_proto :: "jsval option"
  own_softDelete :: jsval
  r_tableName :: string

definition this_softDelete :: "receiver \<Rightarrow> jsval" where
  "this_softDelete this =
     (case model_proto this of Some sd \<Rightarrow> sd | None \<Rightarrow> own_softDelete this)"

definition skipDeleted :: "settings \<Rightarrow> receiver \<Rightarrow> options \<Rightarrow> options" where
  "skipDeleted st this options =
     (if \<not> truthy (isEager options) \<or> truthy (parentResponse options) then
        (if this_softDelete this = JBool True \<and> withDeleted options \<noteq> JBool True
         then options\<lparr>query := whereNull (r_tableName this @ ''.'' @ field st) (query options)\<rparr>
         else options)
      else options)"

text \<open>
  The handlers \<^verbatim>\<open>initialize\<close> registers with \<^verbatim>\<open>this.on\<close>: a collection listens to
  \<^verbatim>\<open>fetching\<close> and \<^verbatim>\<open>counting\<close>, a model to \<^verbatim>\<open>fetching\<close> and
  \<^verbatim>\<open>fetching:collection\<close>; each one is \<^verbatim>\<open>skipDeleted\<close> bound to the receiver.
\<close>

definition collection_on :: "settings \<Rightarrow> receiver \<Rightarrow> string \<Rightarrow> (options \<Rightarrow> options) option" where
  "collection_on st this =
     [''fetching'' \<mapsto> skipDeleted st this, ''counting'' \<mapsto> skipDeleted st this]"

definition model_on :: "settings \<Rightarrow> receiver \<Rightarrow> string \<Rightarrow> (options \<Rightarrow> options) option" where
  "model_on st this =
     [''fetching'' \<mapsto> skipDeleted st this, ''fetching:collection'' \<mapsto> skipDeleted st this]"

section \<open>Models, relations and the host framework\<close>

datatype error =
    NoRowsDeletedError string
  | TypeError string
  | HandlerError string
  | StorageError string

text \<open>
  A model instance: its table, its \<^verbatim>\<open>softDelete\<close> flag, the name of its identifier
  attribute, its attributes with bookshelf's change tracking (\<open>previous\<close> is
  \<^verbatim>\<open>_previousAttributes\<close>), its \<^verbatim>\<open>defaults\<close> (\<open>None\<close> when undefined) and its
  \<^verbatim>\<open>dependents\<close> (an absent and an empty \<^verbatim>\<open>dependents\<close> are both the empty list).
  Each dependent is paired with the relation \<^verbatim>\<open>this[dependent]()\<close> returns, \<open>None\<close>
  when the model has no such method and the call throws a \<^verbatim>\<open>TypeError\<close>.
  A relation carries \<^verbatim>\<open>relatedData.type\<close>, \<^verbatim>\<open>relatedData.target.prototype.softDelete\<close>
  and how \<^verbatim>\<open>relation.fetch()\<close> settles: rejected with an error, or resolved to a model
  or \<^verbatim>\<open>null\<close> when the relation is an instance of \<^verbatim>\<open>bookshelf.Model\<close>, and to a
  collection of models otherwise.
\<close>

datatype entity =
  Entity (tableName: string) (softDelete: jsval) (idAttribute: string)
         (attributes: obj) (previous: obj) (changed: obj)
         (defaults: "obj option") (dependents: "(string \<times> relation option) list")
and relation =
  Relation (rel_type: string) (target_softDelete: jsval) (fetched: fetched)
and fetched =
    FetchRejected error
  | FetchedModel "entity option"
  | FetchedCollection "entity list"

text \<open>The update \<^verbatim>\<open>knex.update(attrs, returning).where(...)\<close> that is issued.\<close>

record update_query =
  u_table :: string
  u_transacting :: jsval
  u_attrs :: obj
  u_returning :: string
  u_where :: obj

text \<open>
  The calls the plugin makes into the host framework, in the order it makes them:
  \<^verbatim>\<open>this.triggerThen(name, this, [arg,] options)\<close>, the knex update, the original
  \<^verbatim>\<open>destroy\<close> of the model prototype, \<^verbatim>\<open>relation.fetch(args)\<close> on the relation of a
  dependent, and \<^verbatim>\<open>instance.destroy(destOps)\<close> on a fetched instance.
\<close>

datatype action =
    TriggerThen string entity "jsval option" options
  | KnexUpdate update_query
  | OrigDestroy entity options
  | RelationFetch string "options option"
  | InvokeDestroy entity options

text \<open>
  What the host answers: the clock of \<^verbatim>\<open>new Date()\<close>, the model's \<^verbatim>\<open>format\<close>, how
  the promise of each \<^verbatim>\<open>triggerThen\<close> settles (\<open>None\<close>: fulfilled, \<open>Some e\<close>:
  rejected with \<open>e\<close>), what the update resolves to (the driver's response) or is
  rejected with, and what the original \<^verbatim>\<open>destroy\<close> does. The handlers of the
  events are taken to leave the model and the options as they are, and the original
  \<^verbatim>\<open>destroy\<close>, which works on a copy of its options, leaves them too.
\<close>

record env =
  now :: int
  format :: "entity \<Rightarrow> obj \<Rightarrow> obj"
  settle :: "action \<Rightarrow> error option"
  execute :: "update_query \<Rightarrow> error + jsval"
  origDestroy :: "entity \<Rightarrow> options \<Rightarrow> error option \<times> entity"

text \<open>What a call of \<^verbatim>\<open>destroy\<close> leaves behind: how its promise settles
  (\<open>None\<close>: fulfilled with the model), the model and the options object as they are
  afterwards, and the calls made.\<close>

record outcome =
  rejected :: "error option"
  self :: entity
  opts :: options
  trace :: "action list"

text \<open>bookshelf's \<^verbatim>\<open>get\<close>, \<^verbatim>\<open>set\<close> and \<^verbatim>\<open>_reset\<close>.\<close>

definition get :: "entity \<Rightarrow> string \<Rightarrow> jsval" where
  "get this attr = (case fmlookup (attributes this) attr of None \<Rightarrow> JUndefined | Some v \<Rightarrow> v)"

definition set_attrs :: "entity \<Rightarrow> obj \<Rightarrow> entity" where
  "set_attrs this attrs =
     Entity (tableName this) (softDelete this) (idAttribute this)
       (attributes this ++\<^sub>f attrs)
       (previous this)
       (fmdrop_fset (fmdom attrs) (changed this) ++\<^sub>f
        fmfilter (\<lambda>attr. fmlookup attrs attr \<noteq>
                    Some (case fmlookup (previous this) attr of
                            None \<Rightarrow> JUndefined
                          | Some p \<Rightarrow> p))
          attrs)
       (defaults this) (dependents this)"

definition reset :: "entity \<Rightarrow> entity" where
  "reset this =
     Entity (tableName this) (softDelete this) (idAttribute this)
       (attributes this) (attributes this) fmempty
       (defaults this) (dependents this)"

text \<open>\<^verbatim>\<open>Promise.all\<close>: fulfilled when every promise is, rejected with a rejection
  otherwise (the first in the order of the list).\<close>

definition first_rejection :: "error option list \<Rightarrow> error option" where
  "first_rejection rs = (case List.map_filter id rs of [] \<Rightarrow> None | e # _ \<Rightarrow> Some e)"

definition promise_all :: "env \<Rightarrow> action list \<Rightarrow> error option" where
  "promise_all env acts = first_rejection (map (settle env) acts)"

section \<open>Model.initialize (index.js, lines 69-80)\<close>

definition initialize :: "settings \<Rightarrow> entity \<Rightarrow> entity" where
  "initialize st this =
     (case sentinel_name st of
        Some s \<Rightarrow>
          if softDelete this = JBool True then
            Entity (tableName this) (softDelete this) (idAttribute this)
              (attributes this) (previous this) (changed this)
              (Some (merge_opt (fmupd s (JBool True) fmempty) (defaults this)))
              (dependents this)
          else this
      | None \<Rightarrow> this)"

section \<open>Model.destroy (index.js, lines 90-208)\<close>

text \<open>Lines 101-108: the marker attributes, formatted.\<close>

definition marker_attrs :: "env \<Rightarrow> settings \<Rightarrow> entity \<Rightarrow> obj" where
  "marker_attrs env st this =
     (let attrs = fmupd (field st) (JDate (now env)) fmempty;
          attrs = (case sentinel_name st of
                     Some s \<Rightarrow> fmupd s JNull attrs
                   | None \<Rightarrow> attrs)
      in format env this attrs)"

text \<open>Lines 113-131: the pre-update events that are triggered.\<close>

definition pre_events :: "settings \<Rightarrow> entity \<Rightarrow> obj \<Rightarrow> options \<Rightarrow> action list" where
  "pre_events st this attrs options =
     (case events st of
        None \<Rightarrow> []
      | Some ev \<Rightarrow>
          (if destroying ev then [TriggerThen ''destroying'' this None options] else []) @
          (if saving ev then [TriggerThen ''saving'' this (Some (JObj attrs)) options] else []) @
          (if updating ev then [TriggerThen ''updating'' this (Some (JObj attrs)) options] else []))"

text \<open>
  Lines 134-141: the update. \<^verbatim>\<open>this.query()\<close> is taken to be a fresh builder on the
  model's table; \<open>u_transacting\<close> is the transaction the builder joins,
  \<^verbatim>\<open>undefined\<close> when it joins none.
\<close>

definition update_query :: "entity \<Rightarrow> obj \<Rightarrow> options \<Rightarrow> update_query" where
  "update_query this attrs options =
     \<lparr> u_table = tableName this,
       u_transacting = (if truthy (transacting options) then transacting options
                        else JUndefined),
       u_attrs = attrs,
       u_returning = idAttribute this,
       u_where = fmupd ''id'' (get this (idAttribute this)) fmempty \<rparr>"

text \<open>Lines 157-172: the post-update events that are triggered.\<close>

definition post_events :: "settings \<Rightarrow> entity \<Rightarrow> jsval \<Rightarrow> options \<Rightarrow> action list" where
  "post_events st this resp options =
     (case events st of
        None \<Rightarrow> []
      | Some ev \<Rightarrow>
          (if destroyed ev then [TriggerThen ''destroyed'' this None options] else []) @
          (if saved ev then [TriggerThen ''saved'' this (Some resp) options] else []) @
          (if updated ev then [TriggerThen ''updated'' this (Some resp) options] else []))"

text \<open>Lines 94-98: \<^verbatim>\<open>merge\<close> assigns the three keys to the options object.\<close>

definition soft_options :: "options \<Rightarrow> options" where
  "soft_options options =
     options\<lparr>opt_method := JStr ''update'', opt_patch := JBool True, opt_softDelete := JBool True\<rparr>"

text \<open>
  Lines 93-173, the first three steps of the promise chain: the options are merged,
  the pre-update events are triggered and awaited, the update is issued, its
  response is checked, and the model is set and reset and the post-update events
  are triggered and awaited. A rejection ends the chain where it occurs.
\<close>

definition soft_delete :: "env \<Rightarrow> settings \<Rightarrow> entity \<Rightarrow> options \<Rightarrow> outcome" where
  "soft_delete env st this options0 =
     (let options = soft_options options0;
          attrs = marker_attrs env st this;
          pre = pre_events st this attrs options
      in case promise_all env pre of
           Some err \<Rightarrow> \<lparr>rejected = Some err, self = this, opts = options, trace = pre\<rparr>
         | None \<Rightarrow>
             (let knex = update_query this attrs options
              in case execute env knex of
                   Inl err \<Rightarrow>
                     \<lparr>rejected = Some err, self = this, opts = options,
                      trace = pre @ [KnexUpdate knex]\<rparr>
                 | Inr resp \<Rightarrow>
                     if isEmpty resp \<and> truthy (require options) then
                       \<lparr>rejected = Some (NoRowsDeletedError ''No Rows Deleted''),
                        self = this, opts = options, trace = pre @ [KnexUpdate knex]\<rparr>
                     else if events st = None then
                       \<lparr>rejected = None, self = this, opts = options,
                        trace = pre @ [KnexUpdate knex]\<rparr>
                     else
                       (let this1 = set_attrs this attrs;
                            options1 = options\<lparr>previousAttributes := JObj (previous this1)\<rparr>;
                            this2 = reset this1;
                            post = post_events st this2 resp options1
                        in \<lparr>rejected = promise_all env post, self = this2,
                            opts = options1, trace = pre @ [KnexUpdate knex] @ post\<rparr>)))"

text \<open>\<^verbatim>\<open>options = options || {}\<close>, line 91.\<close>

definition or_empty :: "options option \<Rightarrow> options" where
  "or_empty options0 = (case options0 of None \<Rightarrow> empty_options | Some given \<Rightarrow> given)"

text \<open>\<^verbatim>\<open>destOps\<close>, lines 181-184.\<close>

definition destOps :: "options \<Rightarrow> options" where
  "destOps options =
     (if truthy (transacting options) then empty_options\<lparr>transacting := transacting options\<rparr>
      else empty_options)"

text \<open>Two promises awaited together: the calls of both, and the first rejection.\<close>

definition both :: "action list \<times> error option \<Rightarrow> action list \<times> error option
    \<Rightarrow> action list \<times> error option" where
  "both a b = (fst a @ fst b, case snd a of Some e \<Rightarrow> Some e | None \<Rightarrow> snd b)"

text \<open>
  The options object a caller hands to \<^verbatim>\<open>destroy\<close>, as the call leaves it before any
  promise settles: on the soft path line 94 has merged the three keys into it.
\<close>

definition entered :: "entity \<Rightarrow> options \<Rightarrow> options" where
  "entered this options =
     (if softDelete this = JBool True \<and> hardDelete options \<noteq> JBool True
      then soft_options options else options)"

text \<open>
  The loop of line 177 throws when \<^verbatim>\<open>this[dependent]\<close> is not a function: the
  \<^verbatim>\<open>TypeError\<close> of the first such dependent.
\<close>

fun each_throws :: "(string \<times> relation option) list \<Rightarrow> error option" where
  "each_throws [] = None"
| "each_throws ((dependent, None) # rest) = Some (TypeError dependent)"
| "each_throws ((dependent, Some relation) # rest) = each_throws rest"

text \<open>
  \<open>destroy\<close> is the whole function; \<open>cascade\<close> is the loop over \<^verbatim>\<open>this.dependents\<close>
  of lines 175-202 with its \<^verbatim>\<open>Promise.all\<close>; \<open>invokeThen\<close> is
  \<^verbatim>\<open>instances.invokeThen('destroy', destOps)\<close>.

  The loop stops at a dependent whose relation method is missing, and the
  \<^verbatim>\<open>TypeError\<close> thrown there is what \<^verbatim>\<open>destroy\<close> is rejected with; the promises
  pushed before it still run. The promises of one \<^verbatim>\<open>Promise.all\<close> run interleaved
  and none is cancelled when another is rejected: the calls of each are listed one
  promise after the other, and the rejection is the first in that order.

  \<^verbatim>\<open>invokeThen\<close> calls \<^verbatim>\<open>destroy\<close> on every model of the collection in turn, before
  any promise settles, and hands each the same \<^verbatim>\<open>destOps\<close> object: a model
  receives it as the models before it have left it on entering \<^verbatim>\<open>destroy\<close>.
\<close>

fun destroy :: "env \<Rightarrow> settings \<Rightarrow> entity \<Rightarrow> options option \<Rightarrow> outcome"
and cascade :: "env \<Rightarrow> settings \<Rightarrow> options \<Rightarrow> (string \<times> relation option) list
    \<Rightarrow> action list \<times> error option"
and invokeThen :: "env \<Rightarrow> settings \<Rightarrow> options \<Rightarrow> entity list
    \<Rightarrow> action list \<times> error option"
where
  "destroy env st (Entity tbl sd ida attrs prev chg defs deps) options0 =
     (let this = Entity tbl sd ida attrs prev chg defs deps;
          options = or_empty options0
      in if softDelete this = JBool True \<and> hardDelete options \<noteq> JBool True then
           (let done = soft_delete env st this options
            in case rejected done of
                 Some err \<Rightarrow> done
               | None \<Rightarrow>
                   (let (calls, err) = cascade env st (opts done) deps
                    in done\<lparr>rejected := err, trace := trace done @ calls\<rparr>))
         else
           (let (err, this1) = origDestroy env this options
            in \<lparr>rejected = err, self = this1, opts = options,
                trace = [OrigDestroy this options]\<rparr>))"
| "cascade env st options [] = ([], None)"
| "cascade env st options ((dependent, None) # rest) = ([], Some (TypeError dependent))"
| "cascade env st options
     ((dependent, Some (Relation relationType alsoSoftDelete found)) # rest) =
     (let promise =
            (if alsoSoftDelete = JBool True \<and> relationType \<noteq> ''belongsToMany'' then
               both ([RelationFetch dependent None], None)
                 (case found of
                    FetchRejected err \<Rightarrow> ([], Some err)
                  | FetchedModel None \<Rightarrow> ([], None)
                  | FetchedModel (Some instance) \<Rightarrow>
                      (let done = destroy env st instance (Some (destOps options))
                       in (InvokeDestroy instance (destOps options) # trace done,
                           rejected done))
                  | FetchedCollection instances \<Rightarrow>
                      invokeThen env st (destOps options) instances)
             else ([], None));
          promises = both promise (cascade env st options rest)
      in case each_throws rest of
           Some thrown \<Rightarrow> (fst promises, Some thrown)
         | None \<Rightarrow> promises)"
| "invokeThen env st ops [] = ([], None)"
| "invokeThen env st ops (instance # instances) =
     both
       (let done = destroy env st instance (Some ops)
        in (InvokeDestroy instance ops # trace done, rejected done))
       (invokeThen env st (entered instance ops) instances)"

section \<open>Reading a trace\<close>

fun is_trigger :: "action \<Rightarrow> bool" where
  "is_trigger (TriggerThen name this arg options) = True"
| "is_trigger call = False"

fun event_name :: "action \<Rightarrow> string" where
  "event_name (TriggerThen name this arg options) = name"
| "event_name call = []"

fun event_options :: "action \<Rightarrow> options option" where
  "event_options (TriggerThen name this arg options) = Some options"
| "event_options call = None"

fun updates :: "action list \<Rightarrow> update_query list" where
  "updates [] = []"
| "updates (KnexUpdate knex # calls) = knex # updates calls"
| "updates (call # calls) = updates calls"

text \<open>The fetches of a trace: the relation's name and the argument of \<^verbatim>\<open>fetch\<close>.\<close>

fun fetches :: "action list \<Rightarrow> (string \<times> options option) list" where
  "fetches [] = []"
| "fetches (RelationFetch name args # calls) = (name, args) # fetches calls"
| "fetches (call # calls) = fetches calls"

text \<open>A default of the model's own, \<^verbatim>\<open>result(this, 'defaults')[key]\<close>.\<close>

definition own_default :: "entity \<Rightarrow> string \<Rightarrow> jsval option" where
  "own_default this key = (case defaults this of None \<Rightarrow> None | Some d \<Rightarrow> fmlookup d key)"

text \<open>Whether \<^verbatim>\<open>settings.events[name]\<close> is on, for the three pre-update events.\<close>

definition pre_enabled :: "settings \<Rightarrow> string \<Rightarrow> bool" where
  "pre_enabled st name =
     (case events st of
        None \<Rightarrow> False
      | Some ev \<Rightarrow>
          (name = ''destroying'' \<and> destroying ev) \<or>
          (name = ''saving'' \<and> saving ev) \<or>
          (name = ''updating'' \<and> updating ev))"

section \<open>The specification's reading of the skip conditions and of the cascade\<close>

text \<open>
  The skip conditions as the specification words them: (a) \<^verbatim>\<open>withDeleted === true\<close>,
  (b) the type is not soft-deletable, (c) \<^verbatim>\<open>isEager\<close> is set and a parent response
  is present.
\<close>

definition spec_skip :: "receiver \<Rightarrow> options \<Rightarrow> bool" where
  "spec_skip this options =
     (withDeleted options = JBool True \<or> this_softDelete this \<noteq> JBool True \<or>
      (truthy (isEager options) \<and> truthy (parentResponse options)))"

text \<open>The instances a fetch resolved to: none when it is rejected or resolves to
  \<^verbatim>\<open>null\<close>, one model, or the models of a collection.\<close>

fun instances :: "fetched \<Rightarrow> entity list" where
  "instances (FetchRejected err) = []"
| "instances (FetchedModel None) = []"
| "instances (FetchedModel (Some instance)) = [instance]"
| "instances (FetchedCollection models) = models"

text \<open>The options object each model of a collection is handed by \<^verbatim>\<open>invokeThen\<close>.\<close>

fun handed :: "options \<Rightarrow> entity list \<Rightarrow> options list" where
  "handed ops [] = []"
| "handed ops (instance # models) = ops # handed (entered instance ops) models"

text \<open>The dependents the loop reaches: those before the first whose relation method is
  missing.\<close>

fun reached :: "(string \<times> relation option) list \<Rightarrow> (string \<times> relation) list" where
  "reached [] = []"
| "reached ((dependent, None) # rest) = []"
| "reached ((dependent, Some relation) # rest) = (dependent, relation) # reached rest"

text \<open>
  The cascade in words: every dependent the loop reaches is visited; one whose
  relation is \<^verbatim>\<open>belongsToMany\<close> or whose target is not soft-deletable is skipped;
  otherwise the relation is fetched, with no argument, and \<^verbatim>\<open>destroy\<close> is invoked
  on each instance found, with the options \<^verbatim>\<open>destOps\<close> as handed to it.
\<close>

definition visit :: "env \<Rightarrow> settings \<Rightarrow> options \<Rightarrow> string \<times> relation \<Rightarrow> action list" where
  "visit env st options dep =
     (if rel_type (snd dep) = ''belongsToMany'' \<or> target_softDelete (snd dep) \<noteq> JBool True
      then []
      else RelationFetch (fst dep) None #
           concat (map (\<lambda>(instance, ops). InvokeDestroy instance ops #
                          trace (destroy env st instance (Some ops)))
                       (zip (instances (fetched (snd dep)))
                            (handed (destOps options) (instances (fetched (snd dep)))))))"

definition cascade_calls :: "env \<Rightarrow> settings \<Rightarrow> options
    \<Rightarrow> (string \<times> relation option) list \<Rightarrow> action list" where
  "cascade_calls env st options deps = concat (map (visit env st options) (reached deps))"

section \<open>Example models and hosts\<close>

text \<open>An order with one dependent relation, \<open>items\<close>, holding one item; a cart with
  two items; an account identified by \<open>uuid\<close>; a model that is not soft-deletable.\<close>

definition item7 :: entity where
  "item7 = Entity ''items'' (JBool True) ''id''
     (fmupd ''id'' (JNum 7) fmempty) (fmupd ''id'' (JNum 7) fmempty) fmempty None []"

definition order42 :: entity where
  "order42 = Entity ''orders'' (JBool True) ''id''
     (fmupd ''id'' (JNum 42) fmempty) (fmupd ''id'' (JNum 42) fmempty) fmempty None
     [(''items'', Some (Relation ''hasMany'' (JBool True) (FetchedCollection [item7])))]"

definition item8 :: entity where
  "item8 = Entity ''items'' (JBool True) ''id''
     (fmupd ''id'' (JNum 8) fmempty) (fmupd ''id'' (JNum 8) fmempty) fmempty None []"

definition cart :: entity where
  "cart = Entity ''carts'' (JBool True) ''id''
     (fmupd ''id'' (JNum 5) fmempty) (fmupd ''id'' (JNum 5) fmempty) fmempty None
     [(''items'', Some (Relation ''hasMany'' (JBool True) (FetchedCollection [item7, item8])))]"

definition account :: entity where
  "account = Entity ''accounts'' (JBool True) ''uuid''
     (fmupd ''uuid'' (JStr ''abc'') fmempty) (fmupd ''uuid'' (JStr ''abc'') fmempty) fmempty None []"

definition audit_log :: entity where
  "audit_log = Entity ''audit_logs'' JUndefined ''id''
     (fmupd ''id'' (JNum 1) fmempty) (fmupd ''id'' (JNum 1) fmempty) fmempty None []"

definition flagged :: entity where
  "flagged = Entity ''users'' (JBool True) ''id''
     (fmupd ''id'' (JNum 3) fmempty) (fmupd ''id'' (JNum 3) fmempty) fmempty
     (Some (fmupd ''active'' (JBool False) fmempty)) []"

text \<open>
  A host whose handlers all fulfil, whose \<^verbatim>\<open>format\<close> is the identity and whose
  update resolves to \<open>resp\<close>: the number of changed rows with the sqlite3 and mysql
  drivers, the array of returned identifiers with PostgreSQL.
\<close>

definition host :: "jsval \<Rightarrow> env" where
  "host resp =
     \<lparr> now = 1000,
       format = (\<lambda>this attrs. attrs),
       settle = (\<lambda>call. None),
       execute = (\<lambda>knex. Inr resp),
       origDestroy = (\<lambda>this options. (None, this)) \<rparr>"

text \<open>The same host with a handler of \<^verbatim>\<open>saving\<close> that rejects.\<close>

definition rejecting_host :: "jsval \<Rightarrow> env" where
  "rejecting_host resp =
     (host resp)\<lparr>settle := (\<lambda>call. if event_name call = ''saving''
                                   then Some (HandlerError ''saving rejected'') else None)\<rparr>"

definition all_events :: settings where
  "all_events =
     default_settings\<lparr>events := Some \<lparr> destroying = True, updating = True, saving = True,
                                        destroyed = True, updated = True, saved = True \<rparr>\<rparr>"

definition no_events :: settings where
  "no_events = default_settings\<lparr>events := None\<rparr>"

definition with_sentinel :: settings where
  "with_sentinel = default_settings\<lparr>sentinel := Some ''active''\<rparr>"

definition orders :: receiver where
  "orders = \<lparr> model_proto = None, own_softDelete = JBool True, r_tableName = ''orders'' \<rparr>"

definition order_collection :: receiver where
  "order_collection =
     \<lparr> model_proto = Some (JBool True), own_softDelete = JUndefined,
       r_tableName = ''orders'' \<rparr>"

text \<open>A delete that joins a transaction.\<close>

definition in_transaction :: options where
  "in_transaction = empty_options\<lparr>transacting := JObj (fmupd ''txid'' (JNum 1) fmempty)\<rparr>"

section \<open>Shared lemmas\<close>

lemma fmlookup_merge:
  "fmlookup (merge object source) key =
     (case fmlookup source key of
        None \<Rightarrow> fmlookup object key
      | Some srcValue \<Rightarrow>
          if srcValue = JUndefined \<and> fmlookup object key \<noteq> None then fmlookup object key
          else Some srcValue)"
  by (auto simp: merge_def split: option.splits intro: fmdomI)

lemma destroy_soft:
  "softDelete this = JBool True \<Longrightarrow> hardDelete (or_empty options0) \<noteq> JBool True \<Longrightarrow>
   destroy env st this options0 =
     (let done = soft_delete env st this (or_empty options0)
      in case rejected done of
           Some err \<Rightarrow> done
         | None \<Rightarrow>
             done\<lparr>rejected := snd (cascade env st (opts done) (dependents this)),
                  trace := trace done @ fst (cascade env st (opts done) (dependents this))\<rparr>)"
  by (cases this) (simp add: Let_def split: option.splits prod.splits)

lemma destroy_hard:
  "softDelete this \<noteq> JBool True \<or> hardDelete (or_empty options0) = JBool True \<Longrightarrow>
   destroy env st this options0 =
     \<lparr>rejected = fst (origDestroy env this (or_empty options0)),
      self = snd (origDestroy env this (or_empty options0)),
      opts = or_empty options0,
      trace = [OrigDestroy this (or_empty options0)]\<rparr>"
  by (cases this) (auto simp add: Let_def split: prod.splits)

lemma first_rejection_None_iff: "first_rejection rs = None \<longleftrightarrow> (\<forall>r \<in> set rs. r = None)"
  by (induction rs) (auto simp: first_rejection_def List.map_filter_simps split: option.splits list.splits)

lemma first_rejection_Some: "first_rejection rs = Some e \<Longrightarrow> Some e \<in> set rs"
  by (induction rs) (auto simp: first_rejection_def List.map_filter_simps split: option.splits list.splits)

lemma promise_all_None_iff:
  "promise_all env calls = None \<longleftrightarrow> (\<forall>call \<in> set calls. settle env call = None)"
  by (simp add: promise_all_def first_rejection_None_iff)

lemma promise_all_Some:
  "promise_all env calls = Some e \<Longrightarrow> \<exists>call \<in> set calls. settle env call = Some e"
proof -
  assume "promise_all env calls = Some e"
  then have "Some e \<in> set (map (settle env) calls)"
    unfolding promise_all_def by (rule first_rejection_Some)
  then obtain call where "call \<in> set calls" "settle env call = Some e" by auto
  then show ?thesis by blast
qed

lemma pre_events_names:
  "map event_name (pre_events st this attrs options)
     = filter (pre_enabled st) [''destroying'', ''saving'', ''updating'']"
  by (simp add: pre_events_def pre_enabled_def split: option.splits)

lemma pre_events_triggers: "call \<in> set (pre_events st this attrs options) \<Longrightarrow> is_trigger call"
  by (auto simp: pre_events_def split: option.splits if_splits)

lemma post_events_triggers: "call \<in> set (post_events st this resp options) \<Longrightarrow> is_trigger call"
  by (auto simp: post_events_def split: option.splits if_splits)

lemma updates_triggers: "\<forall>call \<in> set calls. is_trigger call \<Longrightarrow> updates calls = []"
proof (induction calls)
  case Nil
  then show ?case by simp
next
  case (Cons call calls)
  then show ?case by (cases call) simp_all
qed

lemma soft_delete_pre_rejected:
  "promise_all env (pre_events st this (marker_attrs env st this) (soft_options options)) = Some err
   \<Longrightarrow> soft_delete env st this options =
         \<lparr>rejected = Some err, self = this, opts = soft_options options,
          trace = pre_events st this (marker_attrs env st this) (soft_options options)\<rparr>"
  by (simp add: soft_delete_def Let_def)

lemma soft_delete_pre_fulfilled:
  "promise_all env (pre_events st this (marker_attrs env st this) (soft_options options)) = None
   \<Longrightarrow> \<exists>rest. trace (soft_delete env st this options) =
         pre_events st this (marker_attrs env st this) (soft_options options) @
         KnexUpdate (update_query this (marker_attrs env st this) (soft_options options)) # rest"
  by (simp add: soft_delete_def Let_def split: sum.splits)

lemma destroy_soft_trace:
  "softDelete this = JBool True \<Longrightarrow> hardDelete (or_empty options0) \<noteq> JBool True \<Longrightarrow>
   \<exists>rest. trace (destroy env st this options0)
            = trace (soft_delete env st this (or_empty options0)) @ rest"
  by (simp add: destroy_soft Let_def split: option.splits)

lemma destroy_soft_rejected:
  "softDelete this = JBool True \<Longrightarrow> hardDelete (or_empty options0) \<noteq> JBool True \<Longrightarrow>
   rejected (soft_delete env st this (or_empty options0)) = Some err \<Longrightarrow>
   destroy env st this options0 = soft_delete env st this (or_empty options0)"
  by (simp add: destroy_soft Let_def)

lemma soft_options_idem: "soft_options (soft_options options) = soft_options options"
  by (simp add: soft_options_def)

lemma entered_cases: "entered this ops = ops \<or> entered this ops = soft_options ops"
  by (simp add: entered_def)

lemma entered_soft_options:
  "entered this (soft_options ops) = soft_options ops"
  by (simp add: entered_def soft_options_idem)

lemma handed_cases:
  "ops' \<in> set (handed ops models) \<Longrightarrow> ops' = ops \<or> ops' = soft_options ops"
proof (induction models arbitrary: ops)
  case Nil
  then show ?case by simp
next
  case (Cons model models)
  from Cons.prems have "ops' = ops \<or> ops' \<in> set (handed (entered model ops) models)"
    by simp
  then show ?case
  proof
    assume "ops' = ops"
    then show ?thesis by simp
  next
    assume "ops' \<in> set (handed (entered model ops) models)"
    from Cons.IH [OF this] entered_cases [of model ops] show ?thesis
      by (auto simp: soft_options_idem)
  qed
qed

lemma invokeThen_calls:
  "fst (invokeThen env st ops models) =
     concat (map (\<lambda>(instance, ops). InvokeDestroy instance ops #
                    trace (destroy env st instance (Some ops)))
                 (zip models (handed ops models)))"
  by (induction models arbitrary: ops) (simp_all add: both_def Let_def)

lemma cascade_trace: "fst (cascade env st options deps) = cascade_calls env st options deps"
proof (induction deps rule: reached.induct)
  case 1
  then show ?case by (simp add: cascade_calls_def)
next
  case (2 dependent rest)
  then show ?case by (simp add: cascade_calls_def)
next
  case (3 dependent relation rest)
  obtain relationType alsoSoftDelete found
    where rel: "relation = Relation relationType alsoSoftDelete found"
    by (cases relation) auto
  have one: "fst (cascade env st options [(dependent, Some relation)])
               = visit env st options (dependent, relation)"
    unfolding rel
    by (cases found rule: instances.cases)
       (auto simp: both_def visit_def invokeThen_calls Let_def)
  have "fst (cascade env st options ((dependent, Some relation) # rest))
      = fst (cascade env st options [(dependent, Some relation)]) @
        fst (cascade env st options rest)"
    unfolding rel by (simp add: both_def Let_def split: option.splits)
  with one "3.IH" show ?case by (simp add: cascade_calls_def)
qed

lemma soft_delete_no_events:
  "events st = None \<Longrightarrow>
   soft_delete env st this options =
     \<lparr>rejected =
        (case execute env (update_query this (marker_attrs env st this) (soft_options options)) of
           Inl err \<Rightarrow> Some err
         | Inr resp \<Rightarrow>
             if isEmpty resp \<and> truthy (require (soft_options options))
             then Some (NoRowsDeletedError ''No Rows Deleted'') else None),
      self = this, opts = soft_options options,
      trace = [KnexUpdate (update_query this (marker_attrs env st this) (soft_options options))]\<rparr>"
  by (simp add: soft_delete_def pre_events_def promise_all_def first_rejection_def
        List.map_filter_simps Let_def split: sum.splits)

lemma no_events_no_triggers:
  "events st = None \<Longrightarrow> \<forall>call \<in> set (trace (destroy env st this options0)). \<not> is_trigger call"
  "events st = None \<Longrightarrow> \<forall>call \<in> set (fst (cascade env st options deps)). \<not> is_trigger call"
  "events st = None \<Longrightarrow> \<forall>call \<in> set (fst (invokeThen env st ops models)). \<not> is_trigger call"
proof (induction env st this options0 and env st options deps and env st ops models
       rule: destroy_cascade_invokeThen.induct)
  case (1 env st tbl sd ida attrs prev chg defs deps options0)
  let ?model = "Entity tbl sd ida attrs prev chg defs deps"
  show ?case
  proof (cases "softDelete ?model = JBool True \<and> hardDelete (or_empty options0) \<noteq> JBool True")
    case True
    let ?done = "soft_delete env st ?model (or_empty options0)"
    have d: "trace ?done = [KnexUpdate (update_query ?model (marker_attrs env st ?model)
                               (soft_options (or_empty options0)))]"
      using soft_delete_no_events [OF "1.prems"] by simp
    show ?thesis
    proof (cases "rejected ?done")
      case None
      from "1.IH" [OF refl refl True refl None "1.prems"]
      have "\<forall>call \<in> set (fst (cascade env st (opts ?done) deps)). \<not> is_trigger call" .
      then show ?thesis using True None d
        by (simp add: destroy_soft Let_def del: destroy.simps)
    next
      case (Some err)
      then show ?thesis using True d by (simp add: destroy_soft Let_def del: destroy.simps)
    qed
  next
    case False
    then have "softDelete ?model \<noteq> JBool True \<or> hardDelete (or_empty options0) = JBool True"
      by blast
    from destroy_hard [OF this] show ?thesis by (simp del: destroy.simps)
  qed
next
  case (2 env st options)
  then show ?case by simp
next
  case (3 env st options dependent rest)
  then show ?case by simp
next
  case (4 env st options dependent relationType alsoSoftDelete found rest)
  have later: "\<forall>call \<in> set (fst (cascade env st options rest)). \<not> is_trigger call"
    using 4 by blast
  have here: "\<forall>call \<in> set (fst
       (if alsoSoftDelete = JBool True \<and> relationType \<noteq> ''belongsToMany'' then
          both ([RelationFetch dependent None], None)
            (case found of
               FetchRejected err \<Rightarrow> ([], Some err)
             | FetchedModel None \<Rightarrow> ([], None)
             | FetchedModel (Some instance) \<Rightarrow>
                 (let done = destroy env st instance (Some (destOps options))
                  in (InvokeDestroy instance (destOps options) # trace done,
                      rejected done))
             | FetchedCollection found_models \<Rightarrow>
                 invokeThen env st (destOps options) found_models)
        else ([], None))). \<not> is_trigger call"
  proof (cases "alsoSoftDelete = JBool True \<and> relationType \<noteq> ''belongsToMany''")
    case True
    show ?thesis
    proof (cases found)
      case (FetchRejected err)
      then show ?thesis using True by (simp add: both_def)
    next
      case (FetchedModel found_model)
      then show ?thesis using 4 True
        by (cases found_model) (auto simp: both_def Let_def simp del: destroy.simps)
    next
      case (FetchedCollection models)
      then show ?thesis using 4 True
        by (auto simp: both_def Let_def simp del: destroy.simps)
    qed
  next
    case False
    then show ?thesis by auto
  qed
  from here later show ?case
    by (auto simp: both_def Let_def simp del: destroy.simps split: option.splits)
next
  case (5 env st ops)
  then show ?case by simp
next
  case (6 env st ops model models)
  then show ?case by (auto simp: both_def Let_def simp del: destroy.simps)
qed

lemma order42_soft:
  "softDelete order42 = JBool True" "hardDelete (or_empty None) \<noteq> JBool True"
  by (simp_all add: order42_def or_empty_def empty_options_def)

lemmas run =
  or_empty_def empty_options_def soft_delete_def soft_options_def marker_attrs_def entered_def
  sentinel_name_def pre_events_def post_events_def update_query_def get_def set_attrs_def
  reset_def promise_all_def first_rejection_def List.map_filter_simps destOps_def both_def
  Let_def

lemmas examples =
  order42_def item7_def item8_def cart_def account_def audit_log_def host_def rejecting_host_def
  default_settings_def all_events_def no_events_def with_sentinel_def in_transaction_def

lemma soft_delete_keeps_transacting:
  "transacting (opts (soft_delete env st this options)) = transacting options"
  by (simp add: soft_delete_def soft_options_def Let_def split: option.splits sum.splits)

lemma destOps_eq:
  "destOps options =
     empty_options\<lparr>transacting := (if truthy (transacting options) then transacting options
                                     else JUndefined)\<rparr>"
  by (simp add: destOps_def empty_options_def)

lemma previous_set_attrs: "previous (set_attrs this attrs) = previous this"
  by (simp add: set_attrs_def)

lemma event_name_pre:
  "call \<in> set (pre_events st this attrs options) \<Longrightarrow>
   event_name call \<in> {''destroying'', ''saving'', ''updating''} \<and> event_options call = Some options"
  by (auto simp: pre_events_def split: option.splits if_splits)

lemma event_name_post:
  "call \<in> set (post_events st this resp options) \<Longrightarrow>
   event_name call \<notin> {''destroying'', ''saving'', ''updating''} \<and> event_options call = Some options"
  by (auto simp: post_events_def split: option.splits if_splits)

lemma updates_append: "updates (xs @ ys) = updates xs @ updates ys"
proof (induction xs)
  case Nil
  then show ?case by simp
next
  case (Cons call xs)
  then show ?case by (cases call) simp_all
qed

lemma updates_pre_events: "updates (pre_events st this attrs options) = []"
  by (rule updates_triggers) (blast intro: pre_events_triggers)

lemma updates_post_events: "updates (post_events st this resp options) = []"
  by (rule updates_triggers) (blast intro: post_events_triggers)

section \<open>The read filter\<close>

text \<open>
  A fetch of a soft-deletable model with \<^verbatim>\<open>isEager\<close> set and no parent response,
  \<^verbatim>\<open>withDeleted\<close> unset: the handler of \<^verbatim>\<open>fetching\<close> leaves the query as it is.
  And a model registers no handler of \<^verbatim>\<open>counting\<close>.
\<close>

theorem eager_fetch_without_parent_response_is_unfiltered:
  "this_softDelete orders = JBool True \<and>
   withDeleted (empty_options\<lparr>isEager := JBool True\<rparr>) \<noteq> JBool True \<and>
   model_on default_settings orders ''fetching'' = Some (skipDeleted default_settings orders) \<and>
   skipDeleted default_settings orders (empty_options\<lparr>isEager := JBool True\<rparr>)
     = empty_options\<lparr>isEager := JBool True\<rparr> \<and>
   model_on default_settings orders ''counting'' = None"
  by (simp add: orders_def this_softDelete_def empty_options_def skipDeleted_def model_on_def)

text \<open>
  C2, amended. A model handles \<^verbatim>\<open>fetching\<close> (a fetch) and \<^verbatim>\<open>fetching:collection\<close>
  (a collection fetch), a collection handles \<^verbatim>\<open>fetching\<close> and \<^verbatim>\<open>counting\<close> (a
  count), each with \<^verbatim>\<open>skipDeleted\<close>. In each of these four operations, on a
  soft-deletable type, when \<^verbatim>\<open>withDeleted\<close> is not \<^verbatim>\<open>true\<close> and the query is not an
  eager load without a parent response, the handler appends the predicate
  \<^verbatim>\<open>tableName.field IS NULL\<close> to the query and changes nothing else; when
  \<^verbatim>\<open>withDeleted === true\<close> or the type is not soft-deletable it changes nothing.
\<close>

theorem read_filter_appends_qualified_predicate:
  "model_on st this ''fetching'' = Some (skipDeleted st this) \<and>
   model_on st this ''fetching:collection'' = Some (skipDeleted st this) \<and>
   collection_on st this ''fetching'' = Some (skipDeleted st this) \<and>
   collection_on st this ''counting'' = Some (skipDeleted st this) \<and>
   (this_softDelete this = JBool True \<and> withDeleted options \<noteq> JBool True \<and>
    (\<not> truthy (isEager options) \<or> truthy (parentResponse options)) \<longrightarrow>
      skipDeleted st this options =
        options\<lparr>query := query options @ [WhereNull (r_tableName this @ ''.'' @ field st)]\<rparr>) \<and>
   (withDeleted options = JBool True \<or> this_softDelete this \<noteq> JBool True \<longrightarrow>
      skipDeleted st this options = options)"
  by (auto simp: skipDeleted_def whereNull_def model_on_def collection_on_def)

theorem read_filter_appends_qualified_predicate_witness:
  "skipDeleted default_settings orders empty_options
     = empty_options\<lparr>query := [WhereNull ''orders.deleted_at'']\<rparr> \<and>
   skipDeleted default_settings order_collection (empty_options\<lparr>withDeleted := JBool True\<rparr>)
     = empty_options\<lparr>withDeleted := JBool True\<rparr> \<and>
   collection_on default_settings order_collection ''counting''
     = Some (skipDeleted default_settings order_collection)"
proof -
  have h1: "this_softDelete orders = JBool True \<and> withDeleted empty_options \<noteq> JBool True \<and>
    (\<not> truthy (isEager empty_options) \<or> truthy (parentResponse empty_options))"
    by (simp add: orders_def this_softDelete_def empty_options_def)
  have h2: "withDeleted (empty_options\<lparr>withDeleted := JBool True\<rparr>) = JBool True \<or>
    this_softDelete order_collection \<noteq> JBool True"
    by simp
  from read_filter_appends_qualified_predicate
         [where st = default_settings and this = orders and options = empty_options] h1
  have r1: "skipDeleted default_settings orders empty_options =
      empty_options\<lparr>query := query empty_options @
        [WhereNull (r_tableName orders @ ''.'' @ field default_settings)]\<rparr>"
    by blast
  from read_filter_appends_qualified_predicate
         [where st = default_settings and this = order_collection
            and options = "empty_options\<lparr>withDeleted := JBool True\<rparr>"] h2
  have r2: "skipDeleted default_settings order_collection
              (empty_options\<lparr>withDeleted := JBool True\<rparr>)
      = empty_options\<lparr>withDeleted := JBool True\<rparr>"
    and r3: "collection_on default_settings order_collection ''counting''
     = Some (skipDeleted default_settings order_collection)"
    by blast+
  from r1 have "skipDeleted default_settings orders empty_options
     = empty_options\<lparr>query := [WhereNull ''orders.deleted_at'']\<rparr>"
    by (simp add: orders_def default_settings_def empty_options_def)
  with r2 r3 show ?thesis by simp
qed

text \<open>
  An eager load whose parent supplied a response (here an empty array, which is
  truthy) meets the specification's skip condition (c), and the predicate is applied;
  an eager load without a parent response meets none of the specification's
  conditions, and the predicate is not applied.
\<close>

theorem eager_fetch_with_parent_response_is_filtered:
  "spec_skip orders (empty_options\<lparr>isEager := JBool True, parentResponse := JArr []\<rparr>) \<and>
   query (skipDeleted default_settings orders
            (empty_options\<lparr>isEager := JBool True, parentResponse := JArr []\<rparr>))
     = [WhereNull ''orders.deleted_at''] \<and>
   \<not> spec_skip orders (empty_options\<lparr>isEager := JBool True\<rparr>) \<and>
   query (skipDeleted default_settings orders (empty_options\<lparr>isEager := JBool True\<rparr>)) = []"
  by (simp add: spec_skip_def orders_def this_softDelete_def empty_options_def skipDeleted_def
        whereNull_def default_settings_def)

text \<open>
  C4, amended. The read filter is skipped exactly when (a) \<^verbatim>\<open>withDeleted === true\<close>,
  or (b) the type is not soft-deletable, or (c) \<^verbatim>\<open>isEager\<close> is set and no parent
  response is present; in every other case the predicate on the marker field is
  appended.
\<close>

theorem read_filter_skip_conditions:
  "skipDeleted st this options =
     (if withDeleted options = JBool True \<or> this_softDelete this \<noteq> JBool True \<or>
         (truthy (isEager options) \<and> \<not> truthy (parentResponse options))
      then options
      else options\<lparr>query := query options @
                       [WhereNull (r_tableName this @ ''.'' @ field st)]\<rparr>)"
  by (auto simp: skipDeleted_def whereNull_def)

theorem read_filter_skip_conditions_witness:
  "skipDeleted all_events orders (empty_options\<lparr>isEager := JBool True\<rparr>)
     = empty_options\<lparr>isEager := JBool True\<rparr> \<and>
   skipDeleted all_events orders
       (empty_options\<lparr>isEager := JBool True, parentResponse := JObj fmempty\<rparr>)
     = empty_options\<lparr>isEager := JBool True, parentResponse := JObj fmempty,
                      query := [WhereNull ''orders.deleted_at'']\<rparr>"
  using read_filter_skip_conditions
          [where st = all_events and this = orders
             and options = "empty_options\<lparr>isEager := JBool True\<rparr>"]
        read_filter_skip_conditions
          [where st = all_events and this = orders
             and options = "empty_options\<lparr>isEager := JBool True,
                                          parentResponse := JObj fmempty\<rparr>"]
  by (simp add: orders_def this_softDelete_def empty_options_def all_events_def
        default_settings_def)

section \<open>Initialisation\<close>

text \<open>
  A soft-deletable model whose own defaults set the sentinel field to \<^verbatim>\<open>false\<close>:
  after \<^verbatim>\<open>initialize\<close> the sentinel still defaults to \<^verbatim>\<open>false\<close>.
\<close>

theorem own_default_of_the_sentinel_is_kept:
  "softDelete flagged = JBool True \<and> sentinel_name with_sentinel = Some ''active'' \<and>
   map_option (\<lambda>d. fmlookup d ''active'') (defaults (initialize with_sentinel flagged))
     = Some (Some (JBool False))"
  by (simp add: flagged_def with_sentinel_def sentinel_name_def default_settings_def
        initialize_def merge_opt_def fmlookup_merge)

text \<open>
  C9, amended. For a soft-deletable model, when a sentinel is configured,
  \<^verbatim>\<open>initialize\<close> extends the defaults: the sentinel field defaults to \<^verbatim>\<open>true\<close>
  unless the model's own defaults already give it a value other than
  \<^verbatim>\<open>undefined\<close>, which is kept, and every other default is the model's own. A
  model that is not soft-deletable, or a configuration without a sentinel, leaves the
  model as it is.
\<close>

theorem initialize_extends_defaults:
  "(softDelete this = JBool True \<and> sentinel_name st = Some s \<longrightarrow>
      (\<exists>d. defaults (initialize st this) = Some d \<and>
           fmlookup d s =
             (case own_default this s of
                None \<Rightarrow> Some (JBool True)
              | Some v \<Rightarrow> if v = JUndefined then Some (JBool True) else Some v) \<and>
           (\<forall>key. key \<noteq> s \<longrightarrow> fmlookup d key = own_default this key))) \<and>
   (softDelete this \<noteq> JBool True \<or> sentinel_name st = None \<longrightarrow> initialize st this = this)"
  by (auto simp: initialize_def own_default_def merge_opt_def fmlookup_merge
           split: option.splits)

theorem initialize_extends_defaults_witness:
  "map_option (\<lambda>d. fmlookup d ''active'') (defaults (initialize with_sentinel account))
     = Some (Some (JBool True)) \<and>
   initialize with_sentinel audit_log = audit_log \<and>
   initialize default_settings account = account"
proof -
  have s: "sentinel_name with_sentinel = Some ''active''"
    by (simp add: with_sentinel_def sentinel_name_def default_settings_def)
  have h1: "softDelete account = JBool True \<and> sentinel_name with_sentinel = Some ''active''"
    using s by (simp add: account_def)
  have h2: "softDelete audit_log \<noteq> JBool True \<or> sentinel_name with_sentinel = None"
    by (simp add: audit_log_def)
  have h3: "softDelete account \<noteq> JBool True \<or> sentinel_name default_settings = None"
    by (simp add: sentinel_name_def default_settings_def)
  from initialize_extends_defaults
         [where this = account and st = with_sentinel and s = "''active''"] h1
  obtain d where "defaults (initialize with_sentinel account) = Some d"
    and "fmlookup d ''active'' =
             (case own_default account ''active'' of
                None \<Rightarrow> Some (JBool True)
              | Some v \<Rightarrow> if v = JUndefined then Some (JBool True) else Some v)"
    by blast
  then have r1:
    "map_option (\<lambda>d. fmlookup d ''active'') (defaults (initialize with_sentinel account))
       = Some (Some (JBool True))"
    by (simp add: own_default_def account_def)
  from initialize_extends_defaults [where this = audit_log and st = with_sentinel] h2
  have r2: "initialize with_sentinel audit_log = audit_log" by blast
  from initialize_extends_defaults [where this = account and st = default_settings] h3
  have r3: "initialize default_settings account = account" by blast
  from r1 r2 r3 show ?thesis by simp
qed

section \<open>Hard deletes\<close>

text \<open>
  C6. When the model is not soft-deletable or \<^verbatim>\<open>options.hardDelete === true\<close>,
  \<^verbatim>\<open>destroy\<close> is the original destroy of the model prototype called with the same
  options (the empty object when none were given): that call is the only one made,
  so no marker attributes are written, no update is issued and no event is
  triggered by the plugin, the options are not touched, and the promise settles as
  the original's does.
\<close>

theorem destroy_delegates_to_the_original:
  assumes "softDelete this \<noteq> JBool True \<or> hardDelete (or_empty options0) = JBool True"
  shows "destroy env st this options0 =
     \<lparr>rejected = fst (origDestroy env this (or_empty options0)),
      self = snd (origDestroy env this (or_empty options0)),
      opts = or_empty options0,
      trace = [OrigDestroy this (or_empty options0)]\<rparr> \<and>
     or_empty (Some given) = given"
  using destroy_hard [OF assms] by (simp add: or_empty_def)

theorem destroy_delegates_to_the_original_witness:
  "trace (destroy (host (JNum 1)) default_settings audit_log None)
     = [OrigDestroy audit_log empty_options] \<and>
   destroy (host (JNum 1)) default_settings order42
       (Some (empty_options\<lparr>hardDelete := JBool True\<rparr>))
     = \<lparr>rejected = None, self = order42, opts = empty_options\<lparr>hardDelete := JBool True\<rparr>,
        trace = [OrigDestroy order42 (empty_options\<lparr>hardDelete := JBool True\<rparr>)]\<rparr>"
proof -
  have h1: "softDelete audit_log \<noteq> JBool True \<or> hardDelete (or_empty None) = JBool True"
    by (simp add: audit_log_def)
  have h2: "softDelete order42 \<noteq> JBool True \<or>
      hardDelete (or_empty (Some (empty_options\<lparr>hardDelete := JBool True\<rparr>))) = JBool True"
    by (simp add: or_empty_def)
  from destroy_delegates_to_the_original [OF h1, of "host (JNum 1)" default_settings]
       destroy_delegates_to_the_original [OF h2, of "host (JNum 1)" default_settings]
  show ?thesis by (simp add: or_empty_def host_def)
qed

section \<open>Soft deletes: events and the update\<close>

text \<open>
  C7. On a soft delete, the pre-update events that the configuration enables are
  triggered first, in the order \<^verbatim>\<open>destroying\<close>, \<^verbatim>\<open>saving\<close>, \<^verbatim>\<open>updating\<close>.
  If the promise of one of them is rejected, \<^verbatim>\<open>destroy\<close> is rejected with the error
  of a rejected handler, nothing is called after the events and the update is never
  issued. If all of them are fulfilled, the update is the call that comes next.
\<close>

theorem pre_events_settle_before_the_update:
  assumes soft: "softDelete this = JBool True" "hardDelete (or_empty options0) \<noteq> JBool True"
    and pre: "pre = pre_events st this (marker_attrs env st this) (soft_options (or_empty options0))"
    and out: "out = destroy env st this options0"
  shows "map event_name pre = filter (pre_enabled st) [''destroying'', ''saving'', ''updating''] \<and>
         (\<forall>call \<in> set pre. is_trigger call) \<and>
         take (length pre) (trace out) = pre \<and>
         ((\<exists>call \<in> set pre. settle env call \<noteq> None) \<longrightarrow>
            (\<exists>call \<in> set pre. \<exists>err. settle env call = Some err \<and> rejected out = Some err) \<and>
            trace out = pre \<and> updates (trace out) = []) \<and>
         ((\<forall>call \<in> set pre. settle env call = None) \<longrightarrow>
            (\<exists>rest. trace out =
               pre @ KnexUpdate (update_query this (marker_attrs env st this)
                                   (soft_options (or_empty options0))) # rest))"
proof -
  let ?done = "soft_delete env st this (or_empty options0)"
  have names: "map event_name pre = filter (pre_enabled st) [''destroying'', ''saving'', ''updating'']"
    unfolding pre by (rule pre_events_names)
  have trig: "\<forall>call \<in> set pre. is_trigger call"
    unfolding pre by (blast intro: pre_events_triggers)
  obtain rest where rest: "trace out = trace ?done @ rest"
    using destroy_soft_trace [OF soft] out by blast
  have prefix: "\<exists>rest'. trace ?done = pre @ rest'"
  proof (cases "promise_all env pre")
    case None
    then show ?thesis using soft_delete_pre_fulfilled [of env st this "or_empty options0"] pre by auto
  next
    case (Some err)
    then show ?thesis using soft_delete_pre_rejected [of env st this "or_empty options0" err] pre by auto
  qed
  then have tk: "take (length pre) (trace out) = pre"
    using rest by auto
  have rej: "(\<exists>call \<in> set pre. \<exists>err. settle env call = Some err \<and> rejected out = Some err) \<and>
            trace out = pre \<and> updates (trace out) = []"
    if "\<exists>call \<in> set pre. settle env call \<noteq> None"
  proof -
    from that have "promise_all env pre \<noteq> None" by (simp add: promise_all_None_iff)
    then obtain err where err: "promise_all env pre = Some err" by blast
    then have d: "?done = \<lparr>rejected = Some err, self = this, opts = soft_options (or_empty options0), trace = pre\<rparr>"
      using soft_delete_pre_rejected [of env st this "or_empty options0" err] pre by simp
    then have "rejected ?done = Some err" by simp
    then have o: "out = ?done"
      using destroy_soft_rejected [OF soft] out by simp
    from promise_all_Some [OF err] obtain call where "call \<in> set pre" "settle env call = Some err"
      by blast
    moreover have "rejected out = Some err" "trace out = pre" using o d by simp_all
    moreover have "updates pre = []" using trig by (rule updates_triggers)
    ultimately show ?thesis by auto
  qed
  have ful: "\<exists>rest. trace out =
               pre @ KnexUpdate (update_query this (marker_attrs env st this)
                                   (soft_options (or_empty options0))) # rest"
    if "\<forall>call \<in> set pre. settle env call = None"
  proof -
    from that have "promise_all env pre = None" by (simp add: promise_all_None_iff)
    then obtain r where "trace ?done = pre @ KnexUpdate (update_query this (marker_attrs env st this)
                                   (soft_options (or_empty options0))) # r"
      using soft_delete_pre_fulfilled [of env st this "or_empty options0"] pre by auto
    then show ?thesis using rest by simp
  qed
  from names trig tk rej ful show ?thesis by blast
qed

theorem pre_events_settle_before_the_update_witness:
  "rejected (destroy (rejecting_host (JArr [JNum 42])) all_events order42 None)
     = Some (HandlerError ''saving rejected'') \<and>
   updates (trace (destroy (rejecting_host (JArr [JNum 42])) all_events order42 None)) = [] \<and>
   map event_name (trace (destroy (rejecting_host (JArr [JNum 42])) all_events order42 None))
     = [''destroying'', ''saving'', ''updating''] \<and>
   (\<exists>rest. trace (destroy (host (JArr [JNum 42])) default_settings order42 None) =
      TriggerThen ''destroying'' order42 None (soft_options empty_options) #
      KnexUpdate (update_query order42
                    (marker_attrs (host (JArr [JNum 42])) default_settings order42)
                    (soft_options empty_options)) # rest)"
proof -
  let ?bad = "rejecting_host (JArr [JNum 42])"
  let ?good = "host (JArr [JNum 42])"
  let ?pre1 = "pre_events all_events order42 (marker_attrs ?bad all_events order42)
                 (soft_options (or_empty None))"
  let ?pre2 = "pre_events default_settings order42 (marker_attrs ?good default_settings order42)
                 (soft_options (or_empty None))"
  have names: "map event_name ?pre1 = [''destroying'', ''saving'', ''updating'']"
    by (simp add: pre_events_def all_events_def default_settings_def)
  have settles: "\<forall>call \<in> set ?pre1. settle ?bad call = Some (HandlerError ''saving rejected'')
                   \<or> settle ?bad call = None"
    by (simp add: rejecting_host_def host_def)
  have h1: "\<exists>call \<in> set ?pre1. settle ?bad call \<noteq> None"
    by (simp add: pre_events_def all_events_def default_settings_def rejecting_host_def host_def)
  have h2: "\<forall>call \<in> set ?pre2. settle ?good call = None"
    by (simp add: host_def)
  have pre2: "?pre2 = [TriggerThen ''destroying'' order42 None (soft_options empty_options)]"
    by (simp add: pre_events_def default_settings_def or_empty_def)
  from pre_events_settle_before_the_update [OF order42_soft refl refl, of all_events ?bad] h1
  have r1: "\<exists>call \<in> set ?pre1. \<exists>err. settle ?bad call = Some err \<and>
              rejected (destroy ?bad all_events order42 None) = Some err"
    and r2: "trace (destroy ?bad all_events order42 None) = ?pre1"
    and r3: "updates (trace (destroy ?bad all_events order42 None)) = []"
    by blast+
  from r1 settles have c1: "rejected (destroy ?bad all_events order42 None)
     = Some (HandlerError ''saving rejected'')"
    by force
  from pre_events_settle_before_the_update [OF order42_soft refl refl, of default_settings ?good] h2
  have "\<exists>rest. trace (destroy ?good default_settings order42 None) =
      ?pre2 @ KnexUpdate (update_query order42 (marker_attrs ?good default_settings order42)
                   (soft_options (or_empty None))) # rest"
    by blast
  then have c4: "\<exists>rest. trace (destroy ?good default_settings order42 None) =
      TriggerThen ''destroying'' order42 None (soft_options empty_options) #
      KnexUpdate (update_query order42 (marker_attrs ?good default_settings order42)
                    (soft_options empty_options)) # rest"
    by (simp add: pre2) (simp add: or_empty_def)
  from c1 r2 r3 names c4 show ?thesis by simp
qed

text \<open>
  C1, on the code. With \<^verbatim>\<open>require: true\<close> and a driver that resolves the update to
  the number of changed rows, one row changed: \<^verbatim>\<open>isEmpty(1)\<close> holds, and
  \<^verbatim>\<open>destroy\<close> is rejected with \<^verbatim>\<open>NoRowsDeletedError\<close> although a row was updated.
\<close>

theorem required_delete_rejects_although_a_row_changed:
  "rejected (destroy (host (JNum 1)) default_settings order42
               (Some (empty_options\<lparr>require := JBool True\<rparr>)))
     = Some (NoRowsDeletedError ''No Rows Deleted'')"
  by (simp add: destroy_soft order42_def or_empty_def empty_options_def soft_delete_def host_def
        default_settings_def pre_events_def promise_all_def first_rejection_def
        List.map_filter_simps soft_options_def Let_def del: destroy.simps)

text \<open>
  C5, on the code. A model whose \<^verbatim>\<open>idAttribute\<close> is \<^verbatim>\<open>uuid\<close>: the update returns
  the column \<^verbatim>\<open>uuid\<close> but its \<^verbatim>\<open>where\<close> clause compares the column \<^verbatim>\<open>id\<close> with
  the model's identifier, and does not mention \<^verbatim>\<open>uuid\<close>.
\<close>

theorem update_matches_on_the_id_column:
  "map (\<lambda>knex. (u_returning knex, fmlookup (u_where knex) ''id'', fmlookup (u_where knex) ''uuid''))
       (updates (trace (destroy (host (JArr [JStr ''abc''])) default_settings account None)))
     = [(''uuid'', Some (JStr ''abc''), None)]"
  by (simp add: destroy_soft account_def or_empty_def empty_options_def soft_delete_def host_def
        default_settings_def pre_events_def post_events_def promise_all_def first_rejection_def
        List.map_filter_simps soft_options_def update_query_def get_def Let_def
        del: destroy.simps)

section \<open>Soft deletes with the events disabled\<close>

text \<open>
  The events are disabled and the order has a dependent relation: after the update
  of the order the relation is fetched and the item is updated too.
\<close>

theorem disabled_events_still_cascade:
  "events no_events = None \<and>
   fetches (trace (destroy (host (JArr [JNum 42])) no_events order42 None)) = [(''items'', None)] \<and>
   map u_table (updates (trace (destroy (host (JArr [JNum 42])) no_events order42 None)))
     = [''orders'', ''items'']"
  by (simp add: run examples)

text \<open>
  C8, amended. On a soft delete with \<^verbatim>\<open>settings.events\<close> falsy, the model in memory
  is left as it was (its attributes are not set, its change tracking is not reset),
  the options get no \<^verbatim>\<open>previousAttributes\<close>, and no event is triggered, before or
  after the update, on the model or on a dependent. The update is the first call.
  When it is rejected, or resolves to an empty response with \<^verbatim>\<open>require\<close> set,
  \<^verbatim>\<open>destroy\<close> is rejected and nothing else is called; otherwise the operation still
  proceeds to the cascade over the dependents, and settles as the cascade does.
\<close>

theorem disabled_events_skip_memory_and_post_events:
  assumes soft: "softDelete this = JBool True" "hardDelete (or_empty options0) \<noteq> JBool True"
    and off: "events st = None"
    and options: "options = soft_options (or_empty options0)"
    and knex: "knex = update_query this (marker_attrs env st this) options"
    and out: "out = destroy env st this options0"
  shows "self out = this \<and> opts out = options \<and>
         (\<forall>call \<in> set (trace out). \<not> is_trigger call) \<and>
         (\<exists>rest. trace out = KnexUpdate knex # rest) \<and>
         (\<forall>err. execute env knex = Inl err \<longrightarrow>
            rejected out = Some err \<and> trace out = [KnexUpdate knex]) \<and>
         (\<forall>resp. execute env knex = Inr resp \<and> isEmpty resp \<and> truthy (require options) \<longrightarrow>
            rejected out = Some (NoRowsDeletedError ''No Rows Deleted'') \<and>
            trace out = [KnexUpdate knex]) \<and>
         (\<forall>resp. execute env knex = Inr resp \<and> \<not> (isEmpty resp \<and> truthy (require options)) \<longrightarrow>
            trace out = KnexUpdate knex # cascade_calls env st options (dependents this) \<and>
            rejected out = snd (cascade env st options (dependents this)))"
proof -
  note d = soft_delete_no_events [OF off, of env this "or_empty options0"]
  have o: "out =
     (let done = soft_delete env st this (or_empty options0)
      in case rejected done of
           Some err \<Rightarrow> done
         | None \<Rightarrow>
             done\<lparr>rejected := snd (cascade env st (opts done) (dependents this)),
                  trace := trace done @ fst (cascade env st (opts done) (dependents this))\<rparr>)"
    unfolding out by (rule destroy_soft [OF soft])
  have quiet: "\<forall>call \<in> set (trace out). \<not> is_trigger call"
    unfolding out by (rule no_events_no_triggers(1) [OF off])
  have rest: "self out = this \<and> opts out = options \<and>
         (\<exists>rest. trace out = KnexUpdate knex # rest) \<and>
         (\<forall>err. execute env knex = Inl err \<longrightarrow>
            rejected out = Some err \<and> trace out = [KnexUpdate knex]) \<and>
         (\<forall>resp. execute env knex = Inr resp \<and> isEmpty resp \<and> truthy (require options) \<longrightarrow>
            rejected out = Some (NoRowsDeletedError ''No Rows Deleted'') \<and>
            trace out = [KnexUpdate knex]) \<and>
         (\<forall>resp. execute env knex = Inr resp \<and> \<not> (isEmpty resp \<and> truthy (require options)) \<longrightarrow>
            trace out = KnexUpdate knex # cascade_calls env st options (dependents this) \<and>
            rejected out = snd (cascade env st options (dependents this)))"
    unfolding o d options [symmetric] knex [symmetric]
    by (cases "execute env knex")
       (simp_all add: Let_def cascade_trace options knex)
  with quiet show ?thesis by blast
qed

theorem disabled_events_skip_memory_and_post_events_witness:
  "self (destroy (host (JArr [JNum 42])) no_events order42 None) = order42 \<and>
   opts (destroy (host (JArr [JNum 42])) no_events order42 None) = soft_options empty_options \<and>
   filter is_trigger (trace (destroy (host (JArr [JNum 42])) no_events order42 None)) = [] \<and>
   trace (destroy (host (JArr [JNum 42])) no_events order42 None) =
     KnexUpdate (update_query order42 (marker_attrs (host (JArr [JNum 42])) no_events order42)
                   (soft_options empty_options)) #
     cascade_calls (host (JArr [JNum 42])) no_events (soft_options empty_options)
       (dependents order42) \<and>
   rejected (destroy (host (JArr [JNum 42])) no_events order42 None) = None"
proof -
  let ?H = "host (JArr [JNum 42])"
  let ?K = "update_query order42 (marker_attrs ?H no_events order42)
              (soft_options (or_empty None))"
  have off: "events no_events = None"
    by (simp add: no_events_def)
  have resp: "execute ?H ?K = Inr (JArr [JNum 42]) \<and>
              \<not> (isEmpty (JArr [JNum 42]) \<and> truthy (require (soft_options (or_empty None))))"
    by (simp add: host_def)
  have none: "snd (cascade ?H no_events (soft_options (or_empty None)) (dependents order42)) = None"
    by (simp add: run examples)
  from disabled_events_skip_memory_and_post_events
         [OF order42_soft off refl refl refl, of ?H] resp
  have "self (destroy ?H no_events order42 None) = order42"
    and "opts (destroy ?H no_events order42 None) = soft_options (or_empty None)"
    and "\<forall>call \<in> set (trace (destroy ?H no_events order42 None)). \<not> is_trigger call"
    and "trace (destroy ?H no_events order42 None) =
           KnexUpdate ?K # cascade_calls ?H no_events (soft_options (or_empty None))
                             (dependents order42)"
    and "rejected (destroy ?H no_events order42 None) =
           snd (cascade ?H no_events (soft_options (or_empty None)) (dependents order42))"
    by blast+
  with none show ?thesis
    by (simp add: filter_empty_conv or_empty_def)
qed

section \<open>The cascade\<close>

text \<open>
  C3, on the code. A delete that joins a transaction, on an order with a dependent
  relation: both updates join the transaction, since \<^verbatim>\<open>destOps\<close> carries it to the
  \<^verbatim>\<open>destroy\<close> of the item, but the relation is fetched with no argument, outside
  the transaction.
\<close>

theorem cascade_fetch_is_called_without_the_transaction:
  "truthy (transacting in_transaction) \<and>
   fetches (trace (destroy (host (JArr [JNum 42])) default_settings order42 (Some in_transaction)))
     = [(''items'', None)] \<and>
   map u_transacting
     (updates (trace (destroy (host (JArr [JNum 42])) default_settings order42 (Some in_transaction))))
     = [transacting in_transaction, transacting in_transaction]"
  by (simp add: run examples)

section \<open>The options object\<close>

text \<open>
  A delete with \<^verbatim>\<open>require: true\<close> whose update resolves to an empty array, the events
  enabled: the update is issued, the call is rejected, and the options hold the three
  merged keys and no \<^verbatim>\<open>previousAttributes\<close>.
\<close>

theorem rejected_required_delete_adds_no_previous_attributes:
  "events default_settings \<noteq> None \<and>
   map u_table (updates (trace (destroy (host (JArr [])) default_settings order42
                                  (Some (empty_options\<lparr>require := JBool True\<rparr>)))))
     = [''orders''] \<and>
   opts (destroy (host (JArr [])) default_settings order42
          (Some (empty_options\<lparr>require := JBool True\<rparr>)))
     = soft_options (empty_options\<lparr>require := JBool True\<rparr>) \<and>
   previousAttributes (opts (destroy (host (JArr [])) default_settings order42
                               (Some (empty_options\<lparr>require := JBool True\<rparr>))))
     = JUndefined"
  by (simp add: run examples)

text \<open>
  C10, amended. On a soft delete the options object of the caller (\<open>opts\<close> is that
  object after the call) is changed in place: \<^verbatim>\<open>method: 'update'\<close>,
  \<^verbatim>\<open>patch: true\<close> and \<^verbatim>\<open>softDelete: true\<close> are merged into it before any event is
  triggered; \<^verbatim>\<open>previousAttributes\<close>, the model's \<^verbatim>\<open>_previousAttributes\<close>, is added
  after the update when the events are enabled, the pre-update events were fulfilled
  and the update resolved without the no-rows-deleted rejection, and not otherwise.
  Every event of the model is triggered with that object: the pre-update events
  with the merged options, the post-update events with \<^verbatim>\<open>previousAttributes\<close> added.
\<close>

theorem options_object_is_mutated_in_place:
  assumes soft: "softDelete this = JBool True" "hardDelete (or_empty options0) \<noteq> JBool True"
    and options: "options = soft_options (or_empty options0)"
    and attrs: "attrs = marker_attrs env st this"
    and steps: "steps = soft_delete env st this (or_empty options0)"
    and out: "out = destroy env st this options0"
  shows "options = (or_empty options0)\<lparr>opt_method := JStr ''update'', opt_patch := JBool True,
                                       opt_softDelete := JBool True\<rparr> \<and>
         opts out = opts steps \<and>
         opts steps =
           (if events st \<noteq> None \<and> promise_all env (pre_events st this attrs options) = None \<and>
               (\<exists>resp. execute env (update_query this attrs options) = Inr resp \<and>
                       \<not> (isEmpty resp \<and> truthy (require options)))
            then options\<lparr>previousAttributes := JObj (previous this)\<rparr>
            else options) \<and>
         (\<forall>call \<in> set (trace steps). is_trigger call \<longrightarrow>
            event_options call =
              Some (if event_name call \<in> {''destroying'', ''saving'', ''updating''}
                    then options else opts steps))"
proof -
  have a: "options = (or_empty options0)\<lparr>opt_method := JStr ''update'', opt_patch := JBool True,
                                       opt_softDelete := JBool True\<rparr>"
    by (simp add: options soft_options_def)
  have b: "opts out = opts steps"
    unfolding out steps by (simp add: destroy_soft [OF soft] Let_def split: option.splits)
  have c: "opts steps =
           (if events st \<noteq> None \<and> promise_all env (pre_events st this attrs options) = None \<and>
               (\<exists>resp. execute env (update_query this attrs options) = Inr resp \<and>
                       \<not> (isEmpty resp \<and> truthy (require options)))
            then options\<lparr>previousAttributes := JObj (previous this)\<rparr>
            else options)"
    unfolding steps options attrs
    by (auto simp: soft_delete_def Let_def previous_set_attrs split: option.splits sum.splits)
  have d: "event_options call =
              Some (if event_name call \<in> {''destroying'', ''saving'', ''updating''}
                    then options else opts steps)"
    if "call \<in> set (trace steps)" "is_trigger call" for call
    using that unfolding steps options attrs
    by (auto simp: soft_delete_def Let_def split: option.splits sum.splits if_splits
             dest: event_name_pre event_name_post)
  from a b c d show ?thesis by blast
qed

theorem options_object_is_mutated_in_place_witness:
  "opts (destroy (host (JArr [JNum 42])) all_events order42 None)
     = (soft_options empty_options)\<lparr>previousAttributes := JObj (fmupd ''id'' (JNum 42) fmempty)\<rparr> \<and>
   map (\<lambda>call. (event_name call, map_option previousAttributes (event_options call)))
       (filter is_trigger (trace (soft_delete (host (JArr [JNum 42])) all_events order42 empty_options)))
     = [(''destroying'', Some JUndefined), (''saving'', Some JUndefined),
        (''updating'', Some JUndefined),
        (''destroyed'', Some (JObj (fmupd ''id'' (JNum 42) fmempty))),
        (''saved'', Some (JObj (fmupd ''id'' (JNum 42) fmempty))),
        (''updated'', Some (JObj (fmupd ''id'' (JNum 42) fmempty)))]"
proof -
  let ?H = "host (JArr [JNum 42])"
  let ?o = "soft_options (or_empty None)"
  let ?steps = "soft_delete ?H all_events order42 (or_empty None)"
  have cond: "events all_events \<noteq> None \<and>
      promise_all ?H (pre_events all_events order42 (marker_attrs ?H all_events order42) ?o) = None \<and>
      (\<exists>resp. execute ?H (update_query order42 (marker_attrs ?H all_events order42) ?o) = Inr resp \<and>
              \<not> (isEmpty resp \<and> truthy (require ?o)))"
    by (simp add: run examples)
  have prev: "previous order42 = fmupd ''id'' (JNum 42) fmempty"
    by (simp add: order42_def)
  have names: "map event_name (filter is_trigger (trace ?steps))
      = [''destroying'', ''saving'', ''updating'', ''destroyed'', ''saved'', ''updated'']"
    by (simp add: run examples)
  note t = options_object_is_mutated_in_place [OF order42_soft refl refl refl refl, of ?H all_events]
  from t have "opts (destroy ?H all_events order42 None) = opts ?steps" by blast
  moreover from t cond have o1: "opts ?steps = ?o\<lparr>previousAttributes := JObj (previous order42)\<rparr>"
    by presburger
  ultimately have c1: "opts (destroy ?H all_events order42 None)
     = (soft_options empty_options)\<lparr>previousAttributes := JObj (fmupd ''id'' (JNum 42) fmempty)\<rparr>"
    by (simp add: prev or_empty_def)
  from t have "\<forall>call \<in> set (trace ?steps). is_trigger call \<longrightarrow>
            event_options call =
              Some (if event_name call \<in> {''destroying'', ''saving'', ''updating''}
                    then ?o else opts ?steps)"
    by blast
  then have "map (\<lambda>call. (event_name call, map_option previousAttributes (event_options call)))
       (filter is_trigger (trace ?steps))
     = map (\<lambda>call. (event_name call,
                     Some (previousAttributes
                       (if event_name call \<in> {''destroying'', ''saving'', ''updating''}
                        then ?o else opts ?steps))))
       (filter is_trigger (trace ?steps))"
    by (intro map_cong refl) auto
  also have "\<dots> = map (\<lambda>name. (name,
                     Some (previousAttributes
                       (if name \<in> {''destroying'', ''saving'', ''updating''}
                        then ?o else opts ?steps))))
       (map event_name (filter is_trigger (trace ?steps)))"
    by (simp add: comp_def)
  also have "\<dots> = [(''destroying'', Some JUndefined), (''saving'', Some JUndefined),
        (''updating'', Some JUndefined),
        (''destroyed'', Some (JObj (fmupd ''id'' (JNum 42) fmempty))),
        (''saved'', Some (JObj (fmupd ''id'' (JNum 42) fmempty))),
        (''updated'', Some (JObj (fmupd ''id'' (JNum 42) fmempty)))]"
    unfolding names o1 prev
    by (simp add: soft_options_def or_empty_def empty_options_def)
  finally show ?thesis using c1 by (simp add: or_empty_def)
qed

section \<open>Further properties of the soft delete\<close>

text \<open>
  X1. On a soft delete whose pre-update events are fulfilled, when the update
  resolves to an empty response (no changed row, \<^verbatim>\<open>0\<close>, or no returned row,
  \<^verbatim>\<open>[]\<close>) and \<^verbatim>\<open>options.require\<close> is truthy, \<^verbatim>\<open>destroy\<close> is rejected with
  \<^verbatim>\<open>NoRowsDeletedError\<close>: the model in memory is left as it was, the options get no
  \<^verbatim>\<open>previousAttributes\<close>, and nothing is called after the update, neither a
  post-update event nor the cascade.
\<close>

theorem required_delete_without_rows_changes_nothing:
  assumes soft: "softDelete this = JBool True" "hardDelete (or_empty supplied) \<noteq> JBool True"
    and options: "options = soft_options (or_empty supplied)"
    and pre: "pre = pre_events st this (marker_attrs env st this) options"
    and knex: "knex = update_query this (marker_attrs env st this) options"
    and fulfilled: "\<forall>call \<in> set pre. settle env call = None"
    and resp: "execute env knex = Inr resp"
    and empty: "isEmpty resp"
    and req: "truthy (require (or_empty supplied))"
  shows "destroy env st this supplied =
           \<lparr>rejected = Some (NoRowsDeletedError ''No Rows Deleted''), self = this,
            opts = options, trace = pre @ [KnexUpdate knex]\<rparr> \<and>
         isEmpty (JNum 0) \<and> isEmpty (JArr [])"
proof -
  have p: "promise_all env (pre_events st this (marker_attrs env st this)
             (soft_options (or_empty supplied))) = None"
    using fulfilled unfolding pre options by (simp add: promise_all_None_iff)
  have r: "truthy (require (soft_options (or_empty supplied)))"
    using req by (simp add: soft_options_def)
  have "soft_delete env st this (or_empty supplied) =
           \<lparr>rejected = Some (NoRowsDeletedError ''No Rows Deleted''), self = this,
            opts = options, trace = pre @ [KnexUpdate knex]\<rparr>"
    using p r resp empty unfolding knex pre options
    by (simp add: soft_delete_def Let_def)
  then show ?thesis
    by (simp add: destroy_soft [OF soft] Let_def)
qed

theorem required_delete_without_rows_changes_nothing_witness:
  "destroy (host (JArr [])) default_settings order42 (Some (empty_options\<lparr>require := JBool True\<rparr>))
     = \<lparr>rejected = Some (NoRowsDeletedError ''No Rows Deleted''), self = order42,
        opts = soft_options (empty_options\<lparr>require := JBool True\<rparr>),
        trace = [TriggerThen ''destroying'' order42 None
                   (soft_options (empty_options\<lparr>require := JBool True\<rparr>)),
                 KnexUpdate (update_query order42
                    (marker_attrs (host (JArr [])) default_settings order42)
                    (soft_options (empty_options\<lparr>require := JBool True\<rparr>)))]\<rparr>"
proof -
  let ?H = "host (JArr [])"
  let ?s = "Some (empty_options\<lparr>require := JBool True\<rparr>)"
  let ?o = "soft_options (or_empty ?s)"
  let ?pre = "pre_events default_settings order42 (marker_attrs ?H default_settings order42) ?o"
  let ?K = "update_query order42 (marker_attrs ?H default_settings order42) ?o"
  have soft: "softDelete order42 = JBool True" "hardDelete (or_empty ?s) \<noteq> JBool True"
    by (simp_all add: order42_def or_empty_def empty_options_def)
  have h1: "\<forall>call \<in> set ?pre. settle ?H call = None" by (simp add: host_def)
  have h2: "execute ?H ?K = Inr (JArr [])" by (simp add: host_def)
  have h3: "isEmpty (JArr [])" by simp
  have h4: "truthy (require (or_empty ?s))" by (simp add: or_empty_def)
  have pre: "?pre = [TriggerThen ''destroying'' order42 None ?o]"
    by (simp add: pre_events_def default_settings_def)
  from required_delete_without_rows_changes_nothing [OF soft refl refl refl h1 h2 h3 h4]
  show ?thesis by (simp add: pre) (simp add: or_empty_def)
qed

text \<open>
  X2. On a soft delete whose pre-update events are fulfilled, exactly one update is
  issued for the model: on the model's table, writing the formatted marker
  attributes, returning the identifier attribute, and joining
  \<^verbatim>\<open>options.transacting\<close> when it is truthy and no transaction otherwise.
\<close>

theorem update_joins_the_supplied_transaction:
  assumes knex: "knex = update_query this (marker_attrs env st this) (soft_options options)"
    and fulfilled: "\<forall>call \<in> set (pre_events st this (marker_attrs env st this)
                                  (soft_options options)). settle env call = None"
  shows "updates (trace (soft_delete env st this options)) = [knex] \<and>
         u_table knex = tableName this \<and>
         u_attrs knex = marker_attrs env st this \<and>
         u_returning knex = idAttribute this \<and>
         u_transacting knex =
           (if truthy (transacting options) then transacting options else JUndefined)"
proof -
  have p: "promise_all env (pre_events st this (marker_attrs env st this)
             (soft_options options)) = None"
    using fulfilled by (simp add: promise_all_None_iff)
  have "updates (trace (soft_delete env st this options)) = [knex]"
    using p unfolding knex
    by (simp add: soft_delete_def Let_def updates_append updates_pre_events updates_post_events
             split: sum.splits)
  then show ?thesis
    unfolding knex by (simp add: update_query_def soft_options_def)
qed

theorem update_joins_the_supplied_transaction_witness:
  "map (\<lambda>knex. (u_table knex, u_transacting knex))
       (updates (trace (soft_delete (host (JArr [JNum 42])) default_settings order42 in_transaction)))
     = [(''orders'', JObj (fmupd ''txid'' (JNum 1) fmempty))] \<and>
   map (\<lambda>knex. (u_table knex, u_transacting knex))
       (updates (trace (soft_delete (host (JArr [JNum 42])) default_settings order42 empty_options)))
     = [(''orders'', JUndefined)]"
proof -
  let ?H = "host (JArr [JNum 42])"
  have h: "\<forall>call \<in> set (pre_events default_settings order42
               (marker_attrs ?H default_settings order42) (soft_options options)).
             settle ?H call = None" for options
    by (simp add: host_def)
  from update_joins_the_supplied_transaction [OF refl h, of in_transaction]
       update_joins_the_supplied_transaction [OF refl h, of empty_options]
  show ?thesis
    by (simp add: in_transaction_def empty_options_def order42_def)
qed

text \<open>
  X3. After a soft delete with the events enabled, the pre-update events fulfilled
  and an update that resolved without the no-rows-deleted rejection, the model in
  memory holds the marker attributes over its former ones, its
  \<^verbatim>\<open>_previousAttributes\<close> are its attributes and nothing is changed, and the
  options hold the former \<^verbatim>\<open>_previousAttributes\<close>; this holds whether or not the
  post-update events or the cascade are rejected afterwards.
\<close>

theorem successful_delete_sets_and_resets_the_model:
  assumes soft: "softDelete this = JBool True" "hardDelete (or_empty supplied) \<noteq> JBool True"
    and options: "options = soft_options (or_empty supplied)"
    and attrs: "attrs = marker_attrs env st this"
    and on: "events st \<noteq> None"
    and fulfilled: "\<forall>call \<in> set (pre_events st this attrs options). settle env call = None"
    and resp: "execute env (update_query this attrs options) = Inr resp"
    and rows: "\<not> (isEmpty resp \<and> truthy (require options))"
    and out: "out = destroy env st this supplied"
  shows "attributes (self out) = attributes this ++\<^sub>f attrs \<and>
         previous (self out) = attributes (self out) \<and>
         changed (self out) = fmempty \<and>
         previousAttributes (opts out) = JObj (previous this) \<and>
         tableName (self out) = tableName this \<and> softDelete (self out) = softDelete this \<and>
         idAttribute (self out) = idAttribute this \<and> defaults (self out) = defaults this \<and>
         dependents (self out) = dependents this"
proof -
  have p: "promise_all env (pre_events st this (marker_attrs env st this)
             (soft_options (or_empty supplied))) = None"
    using fulfilled unfolding attrs options by (simp add: promise_all_None_iff)
  have "self (soft_delete env st this (or_empty supplied)) = reset (set_attrs this attrs) \<and>
        opts (soft_delete env st this (or_empty supplied))
          = options\<lparr>previousAttributes := JObj (previous this)\<rparr>"
    using p resp rows on unfolding attrs options
    by (auto simp: soft_delete_def Let_def previous_set_attrs)
  then have "self out = reset (set_attrs this attrs) \<and>
             opts out = options\<lparr>previousAttributes := JObj (previous this)\<rparr>"
    unfolding out by (simp add: destroy_soft [OF soft] Let_def split: option.splits)
  then show ?thesis
    by (simp add: reset_def set_attrs_def)
qed

theorem successful_delete_sets_and_resets_the_model_witness:
  "attributes (self (destroy (host (JArr [JNum 42])) with_sentinel order42 None))
     = fmupd ''active'' JNull (fmupd ''deleted_at'' (JDate 1000) (fmupd ''id'' (JNum 42) fmempty)) \<and>
   changed (self (destroy (host (JArr [JNum 42])) with_sentinel order42 None)) = fmempty \<and>
   previousAttributes (opts (destroy (host (JArr [JNum 42])) with_sentinel order42 None))
     = JObj (fmupd ''id'' (JNum 42) fmempty)"
proof -
  let ?H = "host (JArr [JNum 42])"
  let ?o = "soft_options (or_empty None)"
  let ?a = "marker_attrs ?H with_sentinel order42"
  have on: "events with_sentinel \<noteq> None"
    by (simp add: with_sentinel_def default_settings_def)
  have h1: "\<forall>call \<in> set (pre_events with_sentinel order42 ?a ?o). settle ?H call = None"
    by (simp add: host_def)
  have h2: "execute ?H (update_query order42 ?a ?o) = Inr (JArr [JNum 42])"
    by (simp add: host_def)
  have h3: "\<not> (isEmpty (JArr [JNum 42]) \<and> truthy (require ?o))" by simp
  have a: "?a = fmupd ''active'' JNull (fmupd ''deleted_at'' (JDate 1000) fmempty)"
    by (simp add: marker_attrs_def sentinel_name_def with_sentinel_def default_settings_def
          host_def)
  from successful_delete_sets_and_resets_the_model [OF order42_soft refl refl on h1 h2 h3 refl]
  show ?thesis
    by (simp add: a) (simp add: order42_def)
qed

text \<open>
  X4. After the update and the post-update events of a soft delete, the cascade
  visits the dependents in turn, up to the first whose relation method is missing:
  that one makes \<^verbatim>\<open>destroy\<close> reject with the \<^verbatim>\<open>TypeError\<close> thrown. The cascade skips a
  relation of type \<^verbatim>\<open>belongsToMany\<close> and a relation whose target is not
  soft-deletable. For every other relation it calls \<^verbatim>\<open>fetch\<close> with no argument and
  invokes \<^verbatim>\<open>destroy\<close> on each instance found with the object \<^verbatim>\<open>destOps\<close>, which
  holds the caller's \<^verbatim>\<open>transacting\<close> when it is truthy and nothing else; the
  models of a collection share that object, so a later model receives it with the
  three keys an earlier one has merged into it, and with the same
  \<^verbatim>\<open>transacting\<close>. A relation that resolves to no instance adds no call but the
  fetch and no rejection.
\<close>

theorem cascade_visits_every_dependent:
  "fst (cascade env st options deps) = cascade_calls env st options deps \<and>
   (softDelete this = JBool True \<and> hardDelete (or_empty supplied) \<noteq> JBool True \<and>
    rejected (soft_delete env st this (or_empty supplied)) = None \<longrightarrow>
      trace (destroy env st this supplied) =
        trace (soft_delete env st this (or_empty supplied)) @
        cascade_calls env st (opts (soft_delete env st this (or_empty supplied)))
          (dependents this) \<and>
      transacting (opts (soft_delete env st this (or_empty supplied)))
        = transacting (or_empty supplied)) \<and>
   destOps options =
     empty_options\<lparr>transacting := (if truthy (transacting options) then transacting options
                                     else JUndefined)\<rparr> \<and>
   (\<forall>ops \<in> set (handed (destOps options) models).
      transacting ops = transacting (destOps options) \<and>
      (ops = destOps options \<or> ops = soft_options (destOps options))) \<and>
   (instances (fetched rel) = [] \<and> (\<forall>err. fetched rel \<noteq> FetchRejected err) \<longrightarrow>
      cascade env st options [(dependent, Some rel)] =
        (if rel_type rel = ''belongsToMany'' \<or> target_softDelete rel \<noteq> JBool True then []
         else [RelationFetch dependent None], None)) \<and>
   (each_throws deps = Some thrown \<longrightarrow> snd (cascade env st options deps) = Some thrown)"
proof -
  have a: "fst (cascade env st options deps) = cascade_calls env st options deps"
    by (rule cascade_trace)
  have b: "trace (destroy env st this supplied) =
        trace (soft_delete env st this (or_empty supplied)) @
        cascade_calls env st (opts (soft_delete env st this (or_empty supplied)))
          (dependents this)"
    if "softDelete this = JBool True" "hardDelete (or_empty supplied) \<noteq> JBool True"
       "rejected (soft_delete env st this (or_empty supplied)) = None"
    using that by (simp add: destroy_soft Let_def cascade_trace del: destroy.simps)
  have c: "cascade env st options [(dependent, Some rel)] =
        (if rel_type rel = ''belongsToMany'' \<or> target_softDelete rel \<noteq> JBool True then []
         else [RelationFetch dependent None], None)"
    if "instances (fetched rel) = []" "\<forall>err. fetched rel \<noteq> FetchRejected err"
  proof (cases rel)
    case (Relation relationType alsoSoftDelete found)
    with that show ?thesis
      by (cases found rule: instances.cases) (auto simp: both_def)
  qed
  have d: "transacting ops = transacting (destOps options) \<and>
      (ops = destOps options \<or> ops = soft_options (destOps options))"
    if "ops \<in> set (handed (destOps options) models)" for ops
  proof -
    from handed_cases [OF that]
    show ?thesis
    proof
      assume "ops = destOps options"
      then show ?thesis by simp
    next
      assume "ops = soft_options (destOps options)"
      then show ?thesis by (simp add: soft_options_def)
    qed
  qed
  have e: "snd (cascade env st options deps) = Some thrown" if "each_throws deps = Some thrown"
  proof (cases deps rule: reached.cases)
    case 1
    with that show ?thesis by simp
  next
    case (2 dependent rest)
    with that show ?thesis by simp
  next
    case (3 dependent relation rest)
    with that show ?thesis by (cases relation) (simp add: Let_def)
  qed
  have f: "destOps options =
     empty_options\<lparr>transacting := (if truthy (transacting options) then transacting options
                                     else JUndefined)\<rparr>"
    by (rule destOps_eq)
  have g: "transacting (opts (soft_delete env st this (or_empty supplied)))
        = transacting (or_empty supplied)"
    by (rule soft_delete_keeps_transacting)
  from a b c d e f g show ?thesis by blast
qed

theorem cascade_visits_every_dependent_witness:
  "fst (cascade (host (JArr [JNum 42])) default_settings in_transaction (dependents cart)) =
     RelationFetch ''items'' None #
     InvokeDestroy item7 (destOps in_transaction) #
     trace (destroy (host (JArr [JNum 42])) default_settings item7
              (Some (destOps in_transaction))) @
     InvokeDestroy item8 (soft_options (destOps in_transaction)) #
     trace (destroy (host (JArr [JNum 42])) default_settings item8
              (Some (soft_options (destOps in_transaction)))) \<and>
   transacting (soft_options (destOps in_transaction)) = transacting in_transaction \<and>
   cascade (host (JArr [JNum 42])) default_settings in_transaction
       [(''profile'', Some (Relation ''hasOne'' (JBool True) (FetchedModel None)))]
     = ([RelationFetch ''profile'' None], None) \<and>
   cascade (host (JArr [JNum 42])) default_settings in_transaction
       [(''tags'', Some (Relation ''belongsToMany'' (JBool True) (FetchedCollection [])))]
     = ([], None) \<and>
   snd (cascade (host (JArr [JNum 42])) default_settings in_transaction
          [(''items'', Some (Relation ''hasMany'' (JBool True) (FetchedCollection [item7]))),
           (''ghost'', None)])
     = Some (TypeError ''ghost'') \<and>
   trace (destroy (host (JArr [JNum 42])) default_settings order42 (Some in_transaction)) =
     trace (soft_delete (host (JArr [JNum 42])) default_settings order42 in_transaction) @
     cascade_calls (host (JArr [JNum 42])) default_settings
       (opts (soft_delete (host (JArr [JNum 42])) default_settings order42 in_transaction))
       (dependents order42)"
proof -
  let ?H = "host (JArr [JNum 42])"
  have soft: "softDelete order42 = JBool True \<and>
      hardDelete (or_empty (Some in_transaction)) \<noteq> JBool True \<and>
      rejected (soft_delete ?H default_settings order42 (or_empty (Some in_transaction))) = None"
    by (simp add: run examples)
  have none1: "instances (fetched (Relation ''hasOne'' (JBool True) (FetchedModel None))) = [] \<and>
      (\<forall>err. fetched (Relation ''hasOne'' (JBool True) (FetchedModel None)) \<noteq> FetchRejected err)"
    by simp
  have none2: "instances (fetched (Relation ''belongsToMany'' (JBool True) (FetchedCollection []))) = [] \<and>
      (\<forall>err. fetched (Relation ''belongsToMany'' (JBool True) (FetchedCollection []))
                \<noteq> FetchRejected err)"
    by simp
  have ent: "entered item7 (destOps in_transaction) = soft_options (destOps in_transaction)"
    by (simp add: entered_def item7_def destOps_def in_transaction_def empty_options_def)
  have hand: "handed (destOps in_transaction) [item7, item8]
                = [destOps in_transaction, soft_options (destOps in_transaction)]"
    by (simp add: ent)
  have calls: "cascade_calls ?H default_settings in_transaction (dependents cart) =
     RelationFetch ''items'' None #
     InvokeDestroy item7 (destOps in_transaction) #
     trace (destroy ?H default_settings item7 (Some (destOps in_transaction))) @
     InvokeDestroy item8 (soft_options (destOps in_transaction)) #
     trace (destroy ?H default_settings item8 (Some (soft_options (destOps in_transaction))))"
    by (simp add: cascade_calls_def visit_def cart_def ent)
  have throws: "each_throws
      [(''items'', Some (Relation ''hasMany'' (JBool True) (FetchedCollection [item7]))),
       (''ghost'', None)] = Some (TypeError ''ghost'')"
    by simp
  note t = cascade_visits_every_dependent
             [where env = ?H and st = default_settings and options = in_transaction
                and this = order42 and supplied = "Some in_transaction"
                and models = "[item7, item8]"]
  from t [where deps = "dependents cart"]
  have "fst (cascade ?H default_settings in_transaction (dependents cart))
          = cascade_calls ?H default_settings in_transaction (dependents cart)"
    by blast
  then have c1: "fst (cascade ?H default_settings in_transaction (dependents cart)) =
     RelationFetch ''items'' None #
     InvokeDestroy item7 (destOps in_transaction) #
     trace (destroy ?H default_settings item7 (Some (destOps in_transaction))) @
     InvokeDestroy item8 (soft_options (destOps in_transaction)) #
     trace (destroy ?H default_settings item8 (Some (soft_options (destOps in_transaction))))"
    by (simp only: calls)
  from t [where deps = "[]"]
  have "\<forall>ops \<in> set (handed (destOps in_transaction) [item7, item8]).
          transacting ops = transacting (destOps in_transaction)"
    and "destOps in_transaction =
     empty_options\<lparr>transacting := (if truthy (transacting in_transaction)
                                     then transacting in_transaction else JUndefined)\<rparr>"
    by blast+
  moreover have "soft_options (destOps in_transaction)
      \<in> set (handed (destOps in_transaction) [item7, item8])"
    by (simp only: hand) simp
  ultimately have "transacting (soft_options (destOps in_transaction))
      = transacting (destOps in_transaction)"
    and "transacting (destOps in_transaction) = transacting in_transaction"
    by (blast, simp add: in_transaction_def)
  then have c2: "transacting (soft_options (destOps in_transaction)) = transacting in_transaction"
    by simp
  from t [where deps = "[]" and dependent = "''profile''"
            and rel = "Relation ''hasOne'' (JBool True) (FetchedModel None)"] none1
  have c3: "cascade ?H default_settings in_transaction
       [(''profile'', Some (Relation ''hasOne'' (JBool True) (FetchedModel None)))]
     = ([RelationFetch ''profile'' None], None)"
    by simp
  from t [where deps = "[]" and dependent = "''tags''"
            and rel = "Relation ''belongsToMany'' (JBool True) (FetchedCollection [])"] none2
  have c4: "cascade ?H default_settings in_transaction
       [(''tags'', Some (Relation ''belongsToMany'' (JBool True) (FetchedCollection [])))]
     = ([], None)"
    by simp
  from t [where deps = "[(''items'', Some (Relation ''hasMany'' (JBool True)
                                             (FetchedCollection [item7]))),
                         (''ghost'', None)]"
            and thrown = "TypeError ''ghost''"] throws
  have c5: "snd (cascade ?H default_settings in_transaction
          [(''items'', Some (Relation ''hasMany'' (JBool True) (FetchedCollection [item7]))),
           (''ghost'', None)])
     = Some (TypeError ''ghost'')"
    by blast
  from t [where deps = "[]"] soft
  have c6: "trace (destroy ?H default_settings order42 (Some in_transaction)) =
     trace (soft_delete ?H default_settings order42 (or_empty (Some in_transaction))) @
     cascade_calls ?H default_settings
       (opts (soft_delete ?H default_settings order42 (or_empty (Some in_transaction))))
       (dependents order42)"
    by blast
  from c1 c2 c3 c4 c5 c6 show ?thesis
    by (simp add: or_empty_def)
qed

end
